theory Spec2Isabelle
  imports Main
begin

section \<open>Python strings\<close>

text \<open>
  A Python \<open>str\<close> is modelled as a \<open>string\<close>; one \<open>char\<close> stands for one code point
  (the code points below 256). \<open>isspace\<close> lists the code points in that range that
  \<open>str.isspace\<close> accepts, which are the ones \<open>str.strip()\<close> removes.
\<close>

definition isspace :: "char \<Rightarrow> bool" where
  "isspace c = (c \<in> set [CHR 0x09, CHR 0x0A, CHR 0x0B, CHR 0x0C, CHR 0x0D,
                          CHR 0x1C, CHR 0x1D, CHR 0x1E, CHR 0x1F, CHR 0x20,
                          CHR 0x85, CHR 0xA0])"

text \<open>\<open>s.strip(chars)\<close>: drop the leading and the trailing characters that are in \<open>chars\<close>.\<close>

definition strip_chars :: "string \<Rightarrow> string \<Rightarrow> string" where
  "strip_chars cs s = rev (dropWhile (\<lambda>c. c \<in> set cs) (rev (dropWhile (\<lambda>c. c \<in> set cs) s)))"

text \<open>\<open>s.strip()\<close>: drop the leading and the trailing whitespace.\<close>

definition strip :: "string \<Rightarrow> string" where
  "strip s = rev (dropWhile isspace (rev (dropWhile isspace s)))"

definition startswith :: "string \<Rightarrow> string \<Rightarrow> bool" where
  "startswith s p = (take (length p) s = p)"

definition endswith :: "string \<Rightarrow> string \<Rightarrow> bool" where
  "endswith s p = (length p \<le> length s \<and> drop (length s - length p) s = p)"

text \<open>
  \<open>s.split(sep)\<close> for a one-character separator. The result is never empty
  (\<open>''.split(sep) == ['']\<close>), so the first branch of the \<open>case\<close> is never taken.
\<close>

fun split :: "char \<Rightarrow> string \<Rightarrow> string list" where
  "split sep [] = [[]]"
| "split sep (c # cs) =
     (if c = sep then [] # split sep cs
      else (case split sep cs of [] \<Rightarrow> [[c]] | l # ls \<Rightarrow> (c # l) # ls))"

text \<open>\<open>sep.join(xs)\<close>.\<close>

fun join :: "string \<Rightarrow> string list \<Rightarrow> string" where
  "join sep [] = []"
| "join sep [x] = x"
| "join sep (x # y # ys) = x @ sep @ join sep (y # ys)"

text \<open>\<open>xs[i:j]\<close> for \<open>0 \<le> i\<close>, \<open>0 \<le> j\<close>: Python clamps both ends to the list.\<close>

definition slice :: "'a list \<Rightarrow> nat \<Rightarrow> nat \<Rightarrow> 'a list" where
  "slice xs i j = take (j - i) (drop i xs)"

text \<open>\<open>range(0, n, step)\<close> for a positive step.\<close>

definition range_step :: "nat \<Rightarrow> nat \<Rightarrow> nat list" where
  "range_step n step = map (\<lambda>k. k * step) [0..<(n + step - 1) div step]"

text \<open>\<open>str(n)\<close> for a natural number: its decimal digits.\<close>

definition digit_char :: "nat \<Rightarrow> char" where
  "digit_char d = char_of (of_char CHR ''0'' + d)"

function str_nat :: "nat \<Rightarrow> string" where
  "str_nat n = (if n < 10 then [digit_char n] else str_nat (n div 10) @ [digit_char (n mod 10)])"
  by pat_completeness auto
termination
  by (relation "measure id") auto

declare str_nat.simps [simp del]

section \<open>Code elements\<close>

text \<open>
  The libraries the indexer calls are parameters of the model: \<open>md5_hex s\<close> is
  \<open>hashlib.md5(s.encode()).hexdigest()\<close>.
\<close>

record CodeElement =
  name :: string
  element_type :: string
  file_path :: string
  start_line :: nat
  end_line :: nat
  content :: string
  docstring :: string
  hash :: string

definition compute_hash :: "(string \<Rightarrow> string) \<Rightarrow> string \<Rightarrow> string \<Rightarrow> string \<Rightarrow> string" where
  "compute_hash md5_hex nm ty c = md5_hex (nm @ '':'' @ ty @ '':'' @ c)"

text \<open>The constructor \<open>CodeElement.__init__\<close>; \<open>docstring or ""\<close> is the docstring itself.\<close>

definition mk_element ::
  "(string \<Rightarrow> string) \<Rightarrow> string \<Rightarrow> string \<Rightarrow> string \<Rightarrow> nat \<Rightarrow> nat \<Rightarrow> string \<Rightarrow> string \<Rightarrow> CodeElement" where
  "mk_element md5_hex nm ty fp sl el c doc =
     \<lparr>name = nm, element_type = ty, file_path = fp, start_line = sl, end_line = el,
      content = c, docstring = doc, hash = compute_hash md5_hex nm ty c\<rparr>"

section \<open>Paths\<close>

text \<open>
  A \<open>pathlib.Path\<close> is the list of its \<open>parts\<close>; an absolute POSIX path has the part
  \<open>/\<close> first.
\<close>

type_synonym path = "string list"

definition path_str :: "path \<Rightarrow> string" where
  "path_str p =
     (case p of [] \<Rightarrow> ''.''
      | a # r \<Rightarrow> if a = ''/'' then a @ join ''/'' r else join ''/'' p)"

section \<open>The chunk parser\<close>

definition chunk_size :: nat where
  "chunk_size = 50"

text \<open>One iteration of the loop of \<open>_simple_text_chunks\<close>, at the offset \<open>i\<close>.\<close>

definition chunk_at :: "(string \<Rightarrow> string) \<Rightarrow> path \<Rightarrow> string list \<Rightarrow> nat \<Rightarrow> CodeElement list" where
  "chunk_at md5_hex fp lines i =
     (let chunk_lines = slice lines i (i + chunk_size);
          chunk_content = join ''\<newline>'' chunk_lines
      in if strip chunk_content \<noteq> []
         then [mk_element md5_hex (''chunk_'' @ str_nat (i div chunk_size)) ''text_chunk''
                 (path_str fp) (i + 1) (min (i + chunk_size) (length lines)) chunk_content []]
         else [])"

definition simple_text_chunks :: "(string \<Rightarrow> string) \<Rightarrow> path \<Rightarrow> string \<Rightarrow> CodeElement list" where
  "simple_text_chunks md5_hex fp content_str =
     (let lines = split CHR ''\<newline>'' content_str
      in concat (map (chunk_at md5_hex fp lines) (range_step (length lines) chunk_size)))"

text \<open>
  The partition the specification describes, in its own words: contiguous,
  non-overlapping windows of \<open>w\<close> lines, the last one possibly shorter. It is compared
  with the slices the loop of \<open>_simple_text_chunks\<close> takes.
\<close>

function spec_windows :: "nat \<Rightarrow> 'a list \<Rightarrow> 'a list list" where
  "spec_windows w xs = (if w = 0 \<or> xs = [] then [] else take w xs # spec_windows w (drop w xs))"
  by pat_completeness auto
termination
  by (relation "measure (\<lambda>(w, xs). length xs)") auto

declare spec_windows.simps [simp del]

section \<open>The markdown parser\<close>

definition is_heading :: "string \<Rightarrow> bool" where
  "is_heading line = startswith (strip line) ''#''"

text \<open>\<open>current_section and any(l.strip() for l in current_section)\<close>.\<close>

definition has_content :: "string list \<Rightarrow> bool" where
  "has_content current_section =
     (current_section \<noteq> [] \<and> list_ex (\<lambda>l. strip l \<noteq> []) current_section)"

text \<open>The variables the loop of \<open>_parse_markdown\<close> updates.\<close>

record md_state =
  elements :: "CodeElement list"
  current_section :: "string list"
  current_section_start :: nat
  current_heading :: string

text \<open>One iteration of the loop, on the pair \<open>(i, line)\<close> of \<open>enumerate(lines)\<close>.\<close>

definition md_step :: "(string \<Rightarrow> string) \<Rightarrow> path \<Rightarrow> nat \<times> string \<Rightarrow> md_state \<Rightarrow> md_state" where
  "md_step md5_hex fp il st =
     (let i = fst il; line = snd il; line_num = i + 1
      in if is_heading line
         then \<lparr>elements =
                 (if has_content (current_section st)
                  then elements st @
                       [mk_element md5_hex (current_heading st) ''markdown_section'' (path_str fp)
                          (current_section_start st) (line_num - 1)
                          (strip (join ''\<newline>'' (current_section st))) []]
                  else elements st),
               current_section = [],
               current_section_start = line_num + 1,
               current_heading = strip (strip_chars ''#'' line)\<rparr>
         else st\<lparr>current_section := current_section st @ [line]\<rparr>)"

text \<open>The block after the loop: the final section, ending at \<open>len(lines)\<close>.\<close>

definition md_final :: "(string \<Rightarrow> string) \<Rightarrow> path \<Rightarrow> nat \<Rightarrow> md_state \<Rightarrow> CodeElement list" where
  "md_final md5_hex fp len_lines st =
     (if has_content (current_section st)
      then elements st @
           [mk_element md5_hex (current_heading st) ''markdown_section'' (path_str fp)
              (current_section_start st) len_lines
              (strip (join ''\<newline>'' (current_section st))) []]
      else elements st)"

definition parse_markdown :: "(string \<Rightarrow> string) \<Rightarrow> path \<Rightarrow> string \<Rightarrow> CodeElement list" where
  "parse_markdown md5_hex fp content_str =
     (let lines = split CHR ''\<newline>'' content_str
      in md_final md5_hex fp (length lines)
           (fold (md_step md5_hex fp) (enumerate 0 lines)
              \<lparr>elements = [], current_section = [], current_section_start = 1,
               current_heading = ''Introduction''\<rparr>))"

text \<open>
  The sections the specification describes, in its own words: a heading line is a
  boundary; the text before the first heading is collected under the default name, and
  the text after a heading, up to the line before the next heading or to the end of the
  file, belongs to that heading. A region is (label, first line, lines); \<open>nm\<close> labels a
  region from its heading line and \<open>heading\<close> is the label of the text before the first
  heading. With \<open>nm = Some\<close> and \<open>heading = None\<close> a region carries its heading line
  itself. It is compared with what the loop emits.
\<close>

function md_regions :: "(string \<Rightarrow> 'n) \<Rightarrow> nat \<Rightarrow> 'n \<Rightarrow> string list \<Rightarrow> ('n \<times> nat \<times> string list) list" where
  "md_regions nm start heading ls =
     (heading, start, takeWhile (\<lambda>l. \<not> is_heading l) ls) #
     (case dropWhile (\<lambda>l. \<not> is_heading l) ls of
        [] \<Rightarrow> []
      | h # rest \<Rightarrow> md_regions nm (start + length (takeWhile (\<lambda>l. \<not> is_heading l) ls) + 1) (nm h) rest)"
  by pat_completeness auto
termination
proof (relation "measure (\<lambda>(nm, start, heading, ls). length ls)")
  show "wf (measure (\<lambda>(nm, start, heading, ls). length ls))" by simp
next
  fix nm :: "string \<Rightarrow> 'n" and start :: nat and heading :: 'n and ls h rest
  assume "dropWhile (\<lambda>l. \<not> is_heading l) ls = h # rest"
  then have "length (dropWhile (\<lambda>l. \<not> is_heading l) ls) = Suc (length rest)" by simp
  moreover have "length (dropWhile (\<lambda>l. \<not> is_heading l) ls) \<le> length ls"
    by (rule length_dropWhile_le)
  ultimately show "((nm, start + length (takeWhile (\<lambda>l. \<not> is_heading l) ls) + 1, nm h, rest), (nm, start, heading, ls))
        \<in> measure (\<lambda>(nm, start, heading, ls). length ls)" by simp
qed

declare md_regions.simps [simp del]

text \<open>
  The heading text as the specification words it: the heading line stripped of marker
  characters and surrounding whitespace.
\<close>

definition spec_heading_text :: "string \<Rightarrow> string" where
  "spec_heading_text line = strip (strip_chars ''#'' (strip line))"

text \<open>
  The heading lines whose heading text does not depend on trimming the line before its
  markers are removed: \<open># A\<close> and \<open>## B\<close> followed by a blank are such lines; an
  indented heading, and a heading whose closing marker is followed by blanks, are not.
\<close>

definition markers_outermost :: "string \<Rightarrow> bool" where
  "markers_outermost line =
     (strip (strip_chars ''#'' line) = strip (strip_chars ''#'' (strip line)))"

text \<open>
  What is asked of the element \<open>e\<close> emitted for a region that carries its heading line: its
  type, its line range, its content, and its name, which is \<open>Introduction\<close> for the text
  before the first heading and the heading text for a heading line of the kind above.
\<close>

definition describes_section :: "CodeElement \<Rightarrow> string option \<times> nat \<times> string list \<Rightarrow> bool" where
  "describes_section e r =
     (case r of (heading_line, start, body) \<Rightarrow>
        element_type e = ''markdown_section'' \<and>
        start_line e = start \<and>
        end_line e = start + length body - 1 \<and>
        content e = strip (join ''\<newline>'' body) \<and>
        (case heading_line of
           None \<Rightarrow> name e = ''Introduction''
         | Some l \<Rightarrow> markers_outermost l \<longrightarrow> name e = spec_heading_text l))"

text \<open>The element of a region: it ends at the region's last line.\<close>

definition section_element :: "(string \<Rightarrow> string) \<Rightarrow> path \<Rightarrow> string \<times> nat \<times> string list \<Rightarrow> CodeElement" where
  "section_element md5_hex fp r =
     (case r of (heading, start, body) \<Rightarrow>
        mk_element md5_hex heading ''markdown_section'' (path_str fp) start (start + length body - 1)
          (strip (join ''\<newline>'' body)) [])"

section \<open>Exceptions and path operations\<close>

text \<open>The exceptions the modelled code can raise; a raise is the value \<open>Inl\<close> of a sum.\<close>

datatype error =
  OSError | AttributeError | IndexError | ValueError | KeyError | TypeError
  | DuplicateIDError | NotFoundError

text \<open>\<open>p.relative_to(other)\<close>: the parts after \<open>other\<close>, or \<open>ValueError\<close>.\<close>

definition relative_to :: "path \<Rightarrow> path \<Rightarrow> error + path" where
  "relative_to p other =
     (if take (length other) p = other then Inr (drop (length other) p) else Inl ValueError)"

text \<open>\<open>p.name\<close>: the last part; empty for a path that is only the anchor.\<close>

definition path_name :: "path \<Rightarrow> string" where
  "path_name p = (case rev p of [] \<Rightarrow> [] | n # _ \<Rightarrow> if n = ''/'' then [] else n)"

text \<open>
  \<open>p.suffix\<close>: with \<open>i = name.rfind('.')\<close>, the suffix is \<open>name[i:]\<close> when
  \<open>0 < i < len(name) - 1\<close> and empty otherwise. \<open>after\<close> holds the characters behind the
  last dot.
\<close>

definition suffix :: "path \<Rightarrow> string" where
  "suffix p =
     (let nm = path_name p;
          after = takeWhile (\<lambda>c. c \<noteq> CHR ''.'') (rev nm)
      in if length after = length nm then []
         else (let i = length nm - length after - 1
               in if 0 < i \<and> i < length nm - 1 then drop i nm else []))"

section \<open>The grammar parser\<close>

text \<open>
  A node of the syntax tree tree-sitter builds: its type, its start and end points
  (row, column), the child in its field \<open>name\<close> if any, and its children. The tree is an
  input of the model.
\<close>

datatype node =
  Node (ntype: string) (start_point: "nat \<times> nat") (end_point: "nat \<times> nat")
       (name_child: "node option") (children: "node list")

text \<open>
  \<open>lines[name_node.start_point[0]][name_node.start_point[1]:name_node.end_point[1]]\<close>, where
  \<open>name_node\<close> may be \<open>None\<close> and the row may lie outside the list.
\<close>

definition node_text :: "string list \<Rightarrow> node option \<Rightarrow> error + string" where
  "node_text lines name_node =
     (case name_node of
        None \<Rightarrow> Inl AttributeError
      | Some n \<Rightarrow>
          if fst (start_point n) < length lines
          then Inr (slice (lines ! fst (start_point n)) (snd (start_point n)) (snd (end_point n)))
          else Inl IndexError)"

text \<open>
  \<open>_extract_python_docstring\<close>: the first \<open>string\<close> child of an
  \<open>expression_statement\<close> of a \<open>block\<close> child, in the order the three nested loops
  visit them.
\<close>

definition extract_python_docstring :: "node \<Rightarrow> string list \<Rightarrow> string option" where
  "extract_python_docstring nd lines =
     (case concat (map (\<lambda>child.
              concat (map (\<lambda>stmt. filter (\<lambda>expr_child. ntype expr_child = ''string'') (children stmt))
                        (filter (\<lambda>stmt. ntype stmt = ''expression_statement'') (children child))))
            (filter (\<lambda>child. ntype child = ''block'') (children nd))) of
        [] \<Rightarrow> None
      | expr_child # _ \<Rightarrow>
          Some (strip (strip_chars [CHR 0x27] (strip_chars [CHR 0x22]
                  (strip (join ''\<newline>''
                     (slice lines (fst (start_point expr_child)) (fst (end_point expr_child) + 1))))))))"

text \<open>\<open>x or ""\<close> for an optional string.\<close>

definition or_empty :: "string option \<Rightarrow> string" where
  "or_empty x = (case x of None \<Rightarrow> [] | Some s \<Rightarrow> s)"

definition extract_python_element ::
  "(string \<Rightarrow> string) \<Rightarrow> node \<Rightarrow> string list \<Rightarrow> path \<Rightarrow> error + CodeElement option" where
  "extract_python_element md5_hex nd lines fp =
     (let start_ln = fst (start_point nd) + 1;
          end_ln = fst (end_point nd) + 1;
          element_lines = slice lines (start_ln - 1) end_ln;
          content_str = join ''\<newline>'' element_lines
      in if ntype nd = ''function_def'' then
           (case node_text lines (name_child nd) of
              Inl e \<Rightarrow> Inl e
            | Inr nm \<Rightarrow> Inr (Some (mk_element md5_hex nm ''function'' (path_str fp) start_ln end_ln
                                     content_str (or_empty (extract_python_docstring nd lines)))))
         else if ntype nd = ''class_definition'' then
           (case node_text lines (name_child nd) of
              Inl e \<Rightarrow> Inl e
            | Inr nm \<Rightarrow> Inr (Some (mk_element md5_hex nm ''class'' (path_str fp) start_ln end_ln
                                     content_str (or_empty (extract_python_docstring nd lines)))))
         else if ntype nd \<in> set [''import_statement'', ''import_from_statement''] then
           Inr (Some (mk_element md5_hex ''import'' ''import'' (path_str fp) start_ln end_ln content_str []))
         else Inr None)"

text \<open>
  \<open>_extract_js_ts_element\<close>: a function or class node without a \<open>name\<close> child falls
  through to \<open>return None\<close>, and so does a \<open>method_definition\<close>.
\<close>

definition extract_js_ts_element ::
  "(string \<Rightarrow> string) \<Rightarrow> node \<Rightarrow> string list \<Rightarrow> path \<Rightarrow> error + CodeElement option" where
  "extract_js_ts_element md5_hex nd lines fp =
     (let start_ln = fst (start_point nd) + 1;
          end_ln = fst (end_point nd) + 1;
          element_lines = slice lines (start_ln - 1) end_ln;
          content_str = join ''\<newline>'' element_lines
      in if ntype nd = ''function_declaration'' then
           (case name_child nd of
              None \<Rightarrow> Inr None
            | Some n \<Rightarrow>
                (case node_text lines (Some n) of
                   Inl e \<Rightarrow> Inl e
                 | Inr nm \<Rightarrow> Inr (Some (mk_element md5_hex nm ''function'' (path_str fp) start_ln end_ln
                                          content_str []))))
         else if ntype nd = ''class_declaration'' then
           (case name_child nd of
              None \<Rightarrow> Inr None
            | Some n \<Rightarrow>
                (case node_text lines (Some n) of
                   Inl e \<Rightarrow> Inl e
                 | Inr nm \<Rightarrow> Inr (Some (mk_element md5_hex nm ''class'' (path_str fp) start_ln end_ln
                                          content_str []))))
         else if ntype nd = ''import_statement'' then
           Inr (Some (mk_element md5_hex ''import'' ''import'' (path_str fp) start_ln end_ln content_str []))
         else Inr None)"

text \<open>The body of \<open>traverse_node\<close> before it descends: the elements this node adds.\<close>

definition visit_node ::
  "(string \<Rightarrow> string) \<Rightarrow> string \<Rightarrow> string list \<Rightarrow> path \<Rightarrow> node \<Rightarrow> error + CodeElement list" where
  "visit_node md5_hex file_ext lines fp nd =
     (if file_ext = ''.py'' then
        (if ntype nd \<in> set [''function_def'', ''class_definition'', ''import_statement'',
                            ''import_from_statement'']
         then (case extract_python_element md5_hex nd lines fp of
                 Inl e \<Rightarrow> Inl e
               | Inr None \<Rightarrow> Inr []
               | Inr (Some element) \<Rightarrow> Inr [element])
         else Inr [])
      else if file_ext \<in> set [''.js'', ''.ts'', ''.tsx''] then
        (if ntype nd \<in> set [''function_declaration'', ''method_definition'', ''class_declaration'',
                            ''import_statement'']
         then (case extract_js_ts_element md5_hex nd lines fp of
                 Inl e \<Rightarrow> Inl e
               | Inr None \<Rightarrow> Inr []
               | Inr (Some element) \<Rightarrow> Inr [element])
         else Inr [])
      else Inr [])"

text \<open>
  \<open>traverse_node\<close>: the node first, then its children in order; an exception ends the
  walk.
\<close>

fun traverse_node ::
  "(string \<Rightarrow> string) \<Rightarrow> string \<Rightarrow> string list \<Rightarrow> path \<Rightarrow> node \<Rightarrow> error + CodeElement list"
and traverse_children ::
  "(string \<Rightarrow> string) \<Rightarrow> string \<Rightarrow> string list \<Rightarrow> path \<Rightarrow> node list \<Rightarrow> error + CodeElement list"
where
  "traverse_node md5_hex file_ext lines fp (Node ty sp ep nc ch) =
     (case visit_node md5_hex file_ext lines fp (Node ty sp ep nc ch) of
        Inl e \<Rightarrow> Inl e
      | Inr here \<Rightarrow>
          (case traverse_children md5_hex file_ext lines fp ch of
             Inl e \<Rightarrow> Inl e
           | Inr below \<Rightarrow> Inr (here @ below)))"
| "traverse_children md5_hex file_ext lines fp [] = Inr []"
| "traverse_children md5_hex file_ext lines fp (c # cs) =
     (case traverse_node md5_hex file_ext lines fp c of
        Inl e \<Rightarrow> Inl e
      | Inr first \<Rightarrow>
          (case traverse_children md5_hex file_ext lines fp cs of
             Inl e \<Rightarrow> Inl e
           | Inr others \<Rightarrow> Inr (first @ others)))"

text \<open>
  \<open>_parse_with_tree_sitter\<close>; \<open>parse file_ext content\<close> is the root node of
  \<open>self.parsers[file_ext].parse(content.encode())\<close>.
\<close>

definition parse_with_tree_sitter ::
  "(string \<Rightarrow> string) \<Rightarrow> (string \<Rightarrow> string \<Rightarrow> node) \<Rightarrow> path \<Rightarrow> string \<Rightarrow> string
     \<Rightarrow> error + CodeElement list" where
  "parse_with_tree_sitter md5_hex parse fp content_str file_ext =
     traverse_node md5_hex file_ext (split CHR ''\<newline>'' content_str) fp (parse file_ext content_str)"

section \<open>Metadata, file summaries and the vector store\<close>

text \<open>The values the indexer puts into a metadata dictionary: strings and integers.\<close>

datatype pyval = PStr string | PInt int

type_synonym pydict = "(string \<times> pyval) list"

text \<open>\<open>CodeElement.to_dict\<close>.\<close>

definition to_dict :: "CodeElement \<Rightarrow> pydict" where
  "to_dict e =
     [(''name'', PStr (name e)),
      (''element_type'', PStr (element_type e)),
      (''file_path'', PStr (file_path e)),
      (''start_line'', PInt (int (start_line e))),
      (''end_line'', PInt (int (end_line e))),
      (''content'', PStr (content e)),
      (''docstring'', PStr (docstring e)),
      (''hash'', PStr (hash e))]"

text \<open>
  What the indexer takes from its environment: the MD5 hex digest, the embedding of a
  text (\<open>encode\<close> of a batch embeds each text, in order), the tree-sitter parse of a
  file's content for an extension, and the order in which Python iterates over a set of
  strings built from a list (not specified by the language).
\<close>

record 'v index_env =
  env_md5 :: "string \<Rightarrow> string"
  env_encode :: "string \<Rightarrow> 'v"
  env_parse :: "string \<Rightarrow> string \<Rightarrow> node"
  env_set_order :: "string list \<Rightarrow> string list"

text \<open>
  \<open>_create_file_summary\<close>. The keys of \<open>elements_by_type\<close> are the element types in the
  iteration order of \<open>set(e.element_type for e in elements)\<close>.
\<close>

definition elements_by_type :: "'v index_env \<Rightarrow> CodeElement list \<Rightarrow> (string \<times> nat) list" where
  "elements_by_type env elems =
     map (\<lambda>ty. (ty, length (filter (\<lambda>e. element_type e = ty) elems)))
       (remdups (env_set_order env (map element_type elems)))"

definition elements_by_type_str :: "'v index_env \<Rightarrow> CodeElement list \<Rightarrow> string" where
  "elements_by_type_str env elems =
     (if elements_by_type env elems \<noteq> []
      then join '', '' (map (\<lambda>(k, v). k @ '': '' @ str_nat v) (elements_by_type env elems))
      else ''none'')"

definition create_file_summary ::
  "'v index_env \<Rightarrow> path \<Rightarrow> path \<Rightarrow> string \<Rightarrow> CodeElement list \<Rightarrow> error + pydict" where
  "create_file_summary env project_root fp content_str elems =
     (case relative_to fp project_root of
        Inl e \<Rightarrow> Inl e
      | Inr rel \<Rightarrow>
          Inr [(''file_path'', PStr (path_str rel)),
               (''file_type'', PStr (suffix fp)),
               (''line_count'', PInt (int (length (split CHR ''\<newline>'' content_str)))),
               (''element_count'', PInt (int (length elems))),
               (''elements_by_type_str'', PStr (elements_by_type_str env elems)),
               (''summary'', PStr (''File '' @ path_name fp @ '' contains '' @ str_nat (length elems)
                                    @ '' code elements''))])"

text \<open>
  The vector store is the library's. A collection is modelled by its contract: a map from
  ids to entries, where \<open>upsert\<close> inserts or overwrites the entry of each id of the
  batch. A batch that names an id twice is refused: the library raises
  \<open>DuplicateIDError\<close> and writes nothing.
\<close>

record 'v entry =
  document :: string
  embedding :: 'v
  metadata :: pydict

type_synonym 'v collection = "string \<rightharpoonup> 'v entry"

definition upsert :: "'v collection \<Rightarrow> (string \<times> 'v entry) list \<Rightarrow> error + 'v collection" where
  "upsert col batch =
     (if distinct (map fst batch) then Inr (fold (\<lambda>(i, e) m. m(i \<mapsto> e)) batch col)
      else Inl DuplicateIDError)"

text \<open>The two collections an \<open>IndexingAgent\<close> holds.\<close>

record 'v store =
  code_collection :: "'v collection"
  file_collection :: "'v collection"

text \<open>
  \<open>_store_file_summary\<close>: \<open>summary["summary"]\<close> and \<open>summary["file_path"]\<close> raise
  \<open>KeyError\<close> on a dictionary without the key; the document and the id are strings.
\<close>

definition store_file_summary :: "'v index_env \<Rightarrow> pydict \<Rightarrow> 'v store \<Rightarrow> (error + unit) \<times> 'v store" where
  "store_file_summary env summary st =
     (case map_of summary ''summary'' of
        None \<Rightarrow> (Inl KeyError, st)
      | Some (PInt _) \<Rightarrow> (Inl TypeError, st)
      | Some (PStr doc) \<Rightarrow>
          (case map_of summary ''file_path'' of
             None \<Rightarrow> (Inl KeyError, st)
           | Some (PInt _) \<Rightarrow> (Inl TypeError, st)
           | Some (PStr fpath) \<Rightarrow>
               (case upsert (file_collection st)
                       [(fpath, \<lparr>document = doc, embedding = env_encode env doc,
                                 metadata = summary\<rparr>)] of
                  Inl e \<Rightarrow> (Inl e, st)
                | Inr col \<Rightarrow> (Inr (), st\<lparr>file_collection := col\<rparr>))))"

text \<open>
  \<open>_store_elements\<close>: nothing is written for an empty list; all elements go to the
  store as one batch, so two elements with the same id make the call raise.
\<close>

definition searchable_text :: "CodeElement \<Rightarrow> string" where
  "searchable_text element =
     (let text = name element @ '' '' @ element_type element @ ''\<newline>'' @ content element
      in if docstring element \<noteq> [] then text @ ''\<newline>'' @ docstring element else text)"

definition element_id :: "CodeElement \<Rightarrow> string" where
  "element_id element =
     file_path element @ '':'' @ str_nat (start_line element) @ '':'' @ hash element"

definition element_batch :: "'v index_env \<Rightarrow> CodeElement list \<Rightarrow> (string \<times> 'v entry) list" where
  "element_batch env elems =
     map (\<lambda>element.
            (element_id element,
             \<lparr>document = searchable_text element,
              embedding = env_encode env (searchable_text element),
              metadata = to_dict element\<rparr>)) elems"

definition store_elements ::
  "'v index_env \<Rightarrow> CodeElement list \<Rightarrow> 'v store \<Rightarrow> (error + unit) \<times> 'v store" where
  "store_elements env elems st =
     (if elems = [] then (Inr (), st)
      else (case upsert (code_collection st) (element_batch env elems) of
              Inl e \<Rightarrow> (Inl e, st)
            | Inr col \<Rightarrow> (Inr (), st\<lparr>code_collection := col\<rparr>)))"

section \<open>The index builder\<close>

text \<open>
  A file the discovery finds: its path and what reading it gives, \<open>None\<close> when
  \<open>open\<close> or \<open>read\<close> raises (a directory whose name matches, a file that cannot be
  read).
\<close>

type_synonym file_entry = "path \<times> string option"

text \<open>\<open>self.parsers\<close> has a parser for these extensions.\<close>

definition parser_exts :: "string list" where
  "parser_exts = [''.py'', ''.js'', ''.ts'', ''.tsx'']"

text \<open>The dispatch of \<open>_index_file\<close> on the extension.\<close>

definition parse_file :: "'v index_env \<Rightarrow> path \<Rightarrow> string \<Rightarrow> error + CodeElement list" where
  "parse_file env fp content_str =
     (let file_ext = suffix fp
      in if file_ext \<in> set parser_exts
         then parse_with_tree_sitter (env_md5 env) (env_parse env) fp content_str file_ext
         else if file_ext = ''.md''
         then Inr (parse_markdown (env_md5 env) fp content_str)
         else Inr (simple_text_chunks (env_md5 env) fp content_str))"

text \<open>\<open>_index_file\<close>: the result and the store it leaves, also when it raises.\<close>

definition index_file ::
  "'v index_env \<Rightarrow> path \<Rightarrow> file_entry \<Rightarrow> 'v store \<Rightarrow> (error + CodeElement list \<times> pydict) \<times> 'v store" where
  "index_file env project_root f st =
     (case snd f of
        None \<Rightarrow> (Inl OSError, st)
      | Some content_str \<Rightarrow>
          (case parse_file env (fst f) content_str of
             Inl e \<Rightarrow> (Inl e, st)
           | Inr elems \<Rightarrow>
               (case create_file_summary env project_root (fst f) content_str elems of
                  Inl e \<Rightarrow> (Inl e, st)
                | Inr file_summary \<Rightarrow>
                    (case store_file_summary env file_summary st of
                       (Inl e, st') \<Rightarrow> (Inl e, st')
                     | (Inr _, st') \<Rightarrow> (Inr (elems, file_summary), st')))))"

text \<open>
  The discovery of \<open>index_codebase\<close>. \<open>tree\<close> lists what lies under the project root, each
  entry by its parts below the root; \<open>rglob\<close> gives the entries whose name ends in the
  extension, as paths that start with the root.
\<close>

definition code_extensions :: "string list" where
  "code_extensions = [''.py'', ''.js'', ''.ts'', ''.tsx'', ''.jsx'', ''.md'']"

definition ignore_dirs :: "string list" where
  "ignore_dirs = [''.git'', ''__pycache__'', ''node_modules'', ''.venv'', ''venv'', ''.adk_index'']"

definition rglob :: "path \<Rightarrow> file_entry list \<Rightarrow> string \<Rightarrow> file_entry list" where
  "rglob project_root tree ext =
     map (\<lambda>(rel, c). (project_root @ rel, c))
       (filter (\<lambda>(rel, c). rel \<noteq> [] \<and> endswith (last rel) ext) tree)"

definition code_files :: "'v index_env \<Rightarrow> path \<Rightarrow> file_entry list \<Rightarrow> file_entry list" where
  "code_files env project_root tree =
     filter (\<lambda>(f, c). \<not> list_ex (\<lambda>ignore_dir. ignore_dir \<in> set f) ignore_dirs)
       (concat (map (rglob project_root tree) (remdups (env_set_order env code_extensions))))"

text \<open>The report \<open>index_codebase\<close> returns.\<close>

record report =
  indexed_files :: "string list"
  total_elements :: nat
  errors :: "string list"

text \<open>
  The loop of \<open>index_codebase\<close> over the files, with the lists it extends; an exception of
  \<open>_index_file\<close> or of \<open>relative_to\<close> leaves the loop.
\<close>

fun index_loop ::
  "'v index_env \<Rightarrow> path \<Rightarrow> file_entry list \<Rightarrow> string list \<Rightarrow> CodeElement list \<Rightarrow> 'v store
     \<Rightarrow> (error + string list \<times> CodeElement list) \<times> 'v store" where
  "index_loop env project_root [] indexed elems st = (Inr (indexed, elems), st)"
| "index_loop env project_root (f # fs) indexed elems st =
     (case index_file env project_root f st of
        (Inl e, st') \<Rightarrow> (Inl e, st')
      | (Inr result, st') \<Rightarrow>
          (case relative_to (fst f) project_root of
             Inl e \<Rightarrow> (Inl e, st')
           | Inr rel \<Rightarrow>
               index_loop env project_root fs (indexed @ [path_str rel]) (elems @ fst result) st'))"

definition index_codebase ::
  "'v index_env \<Rightarrow> path \<Rightarrow> file_entry list \<Rightarrow> 'v store \<Rightarrow> (error + report) \<times> 'v store" where
  "index_codebase env project_root tree st =
     (case index_loop env project_root (code_files env project_root tree) [] [] st of
        (Inl e, st') \<Rightarrow> (Inl e, st')
      | (Inr (indexed, elems), st') \<Rightarrow>
          (case store_elements env elems st' of
             (Inl e, st'') \<Rightarrow> (Inl e, st'')
           | (Inr _, st'') \<Rightarrow>
               (Inr \<lparr>indexed_files = indexed, total_elements = length elems, errors = []\<rparr>,
                st'')))"

text \<open>
  Writing the entries of \<open>d\<close> over those of \<open>st\<close>, in both collections; and the store
  with two empty collections.
\<close>

definition overlay :: "'v store \<Rightarrow> 'v store \<Rightarrow> 'v store" where
  "overlay st d = \<lparr>code_collection = code_collection st ++ code_collection d,
                   file_collection = file_collection st ++ file_collection d\<rparr>"

definition empty_store :: "'v store" where
  "empty_store = \<lparr>code_collection = Map.empty, file_collection = Map.empty\<rparr>"

text \<open>
  An environment to run the model on examples: the digest and the embedding of a text
  are the text itself, every parse is a single node without type, and a set is iterated
  in insertion order.
\<close>

definition example_env :: "string index_env" where
  "example_env =
     \<lparr>env_md5 = (\<lambda>s. s), env_encode = (\<lambda>s. s),
      env_parse = (\<lambda>_ _. Node [] (0, 0) (0, 0) None []), env_set_order = (\<lambda>xs. xs)\<rparr>"

text \<open>
  A tree for the two-line Python file \<open>import os\<close>, \<open>class C: pass\<close>, and two
  environments that parse every file to it: they differ only in the order in which a
  set is iterated, as two Python processes do.
\<close>

definition example_py_tree :: node where
  "example_py_tree =
     Node ''module'' (0, 0) (1, 13) None
       [Node ''import_statement'' (0, 0) (0, 9) None [],
        Node ''class_definition'' (1, 0) (1, 13) (Some (Node ''identifier'' (1, 6) (1, 7) None [])) []]"

definition first_process_env :: "string index_env" where
  "first_process_env = example_env\<lparr>env_parse := (\<lambda>_ _. example_py_tree)\<rparr>"

definition second_process_env :: "string index_env" where
  "second_process_env = first_process_env\<lparr>env_set_order := rev\<rparr>"

section \<open>Reference notions for the emitted elements\<close>

text \<open>
  The source text of the lines \<open>s\<close> to \<open>e\<close> of a file, counted from 1 and inclusive, as the
  specification words the \<open>content\<close> field.
\<close>

definition source_text :: "string \<Rightarrow> nat \<Rightarrow> nat \<Rightarrow> string" where
  "source_text c s e = join ''\<newline>'' (slice (split CHR ''\<newline>'' c) (s - 1) e)"

text \<open>
  What tree-sitter guarantees of the trees it builds, as far as the line numbers need it:
  no node ends on a row before the one it starts on.
\<close>

fun rows_ordered :: "node \<Rightarrow> bool" where
  "rows_ordered (Node ty sp ep nc ch) = (fst sp \<le> fst ep \<and> list_all rows_ordered ch)"

text \<open>
  A tree for the two-line JavaScript file \<open>import a from b\<close>, \<open>function f(){}\<close>: an import
  statement on the first row and the declaration of \<open>f\<close> on the second.
\<close>

definition example_js_tree :: node where
  "example_js_tree =
     Node ''program'' (0, 0) (1, 12) None
       [Node ''import_statement'' (0, 0) (0, 15) None [],
        Node ''function_declaration'' (1, 0) (1, 12) (Some (Node ''identifier'' (1, 9) (1, 10) None [])) []]"

section \<open>The search tool\<close>

text \<open>\<open>str(i)\<close> for an integer, and \<open>str(v)\<close> for a metadata value.\<close>

definition str_int :: "int \<Rightarrow> string" where
  "str_int i = (if i < 0 then ''-'' @ str_nat (nat (- i)) else str_nat (nat i))"

definition py_str :: "pyval \<Rightarrow> string" where
  "py_str v = (case v of PStr s \<Rightarrow> s | PInt i \<Rightarrow> str_int i)"

text \<open>The truth value of a metadata value: an empty string and zero are false.\<close>

definition truthy :: "pyval \<Rightarrow> bool" where
  "truthy v = (case v of PStr s \<Rightarrow> s \<noteq> [] | PInt i \<Rightarrow> i \<noteq> 0)"

text \<open>\<open>f"{metadata.get(key, dflt)}"\<close> for a string \<open>dflt\<close>.\<close>

definition get_str :: "pydict \<Rightarrow> string \<Rightarrow> string \<Rightarrow> string" where
  "get_str d k dflt = (case map_of d k of None \<Rightarrow> dflt | Some v \<Rightarrow> py_str v)"

text \<open>
  A row of the \<open>metadatas\<close> a store call returns: a dictionary, or anything else (\<open>None\<close>
  for an entry without metadata), which is all that \<open>isinstance(metadata, dict)\<close> tells
  apart.
\<close>

datatype row_meta = Dict pydict | NotDict

text \<open>
  The dictionary a store call returns; \<open>results.get(key)\<close> is \<open>None\<close> for a key that is
  absent. A query returns one list per query embedding, so its values are lists of
  lists; \<open>get\<close> returns flat lists and no distances.
\<close>

record ('docs, 'metas, 'dists) results =
  documents :: "'docs option"
  metadatas :: "'metas option"
  distances :: "'dists option"

type_synonym 'd query_results = "(string list list, row_meta list list, 'd list list) results"

type_synonym get_results = "(string list, row_meta list, unit) results"

text \<open>
  What the search tool takes from its environment: the embedding of the query, the
  store's \<open>query\<close> (collection, embedding, \<open>n_results\<close>, \<open>where\<close>), \<open>get\<close> by an equality
  filter with an optional limit, and \<open>get\<close> by ids, each of which may raise; the
  exception the installed library raises when \<open>get_collection\<close> finds no collection of
  the name (\<open>ValueError\<close> in the releases the code was written for, \<open>NotFoundError\<close> in
  later ones; the repository pins no release); the text of \<open>f"{1-distance:.3f}"\<close> for a
  distance, which raises \<open>TypeError\<close> for a distance that is not a number; \<open>str(e)\<close> for
  an exception; and the string methods \<open>title\<close> and \<open>upper\<close>.
\<close>

record ('v, 'd) search_env =
  s_encode :: "string \<Rightarrow> 'v"
  s_query :: "'v collection \<Rightarrow> 'v \<Rightarrow> int \<Rightarrow> (string \<times> string) option \<Rightarrow> error + 'd query_results"
  s_get :: "'v collection \<Rightarrow> string \<times> string \<Rightarrow> int option \<Rightarrow> error + get_results"
  s_get_ids :: "'v collection \<Rightarrow> string list \<Rightarrow> error + get_results"
  s_missing :: error
  s_similarity :: "'d \<Rightarrow> error + string"
  s_error_str :: "error \<Rightarrow> string"
  s_title :: "string \<Rightarrow> string"
  s_upper :: "string \<Rightarrow> string"

text \<open>
  The persistent client: the collections that exist, by name. For a name without
  collection \<open>get_collection\<close> raises the exception \<open>missing\<close> of the library.
\<close>

type_synonym 'v client = "string \<rightharpoonup> 'v collection"

definition get_collection :: "error \<Rightarrow> 'v client \<Rightarrow> string \<Rightarrow> error + 'v collection" where
  "get_collection missing cl nm = (case cl nm of None \<Rightarrow> Inl missing | Some col \<Rightarrow> Inr col)"

text \<open>The two attributes \<open>code_collection\<close> and \<open>file_collection\<close> of a \<open>VectorSearchTool\<close>.\<close>

record 'v VectorSearchTool =
  vs_code_collection :: "'v collection option"
  vs_file_collection :: "'v collection option"

text \<open>
  \<open>VectorSearchTool.__init__\<close>: \<open>except ValueError\<close> around the two lookups sets both
  attributes to \<open>None\<close>; any other exception leaves the constructor.
\<close>

definition VectorSearchTool_init :: "('v, 'd) search_env \<Rightarrow> 'v client \<Rightarrow> error + 'v VectorSearchTool" where
  "VectorSearchTool_init env cl =
     (case get_collection (s_missing env) cl ''code_elements'' of
        Inl e \<Rightarrow>
          if e = ValueError then Inr \<lparr>vs_code_collection = None, vs_file_collection = None\<rparr>
          else Inl e
      | Inr code \<Rightarrow>
          (case get_collection (s_missing env) cl ''file_summaries'' of
             Inl e \<Rightarrow>
               if e = ValueError then Inr \<lparr>vs_code_collection = None, vs_file_collection = None\<rparr>
               else Inl e
           | Inr files \<Rightarrow> Inr \<lparr>vs_code_collection = Some code, vs_file_collection = Some files\<rparr>))"

definition quoted :: "string \<Rightarrow> string" where
  "quoted s = [CHR 0x27] @ s @ [CHR 0x27]"

text \<open>
  The text of one row of \<open>semantic_search\<close>, for the index \<open>i\<close> of \<open>enumerate\<close> and the
  text \<open>sim\<close> of the similarity.
\<close>

definition result_text :: "nat \<Rightarrow> pydict \<Rightarrow> string \<Rightarrow> string" where
  "result_text i md sim =
     ''Result '' @ str_nat (i + 1) @ '' (similarity: '' @ sim @ ''):\<newline>''
     @ ''  Name: '' @ get_str md ''name'' ''unknown'' @ ''\<newline>''
     @ ''  Type: '' @ get_str md ''element_type'' ''unknown'' @ ''\<newline>''
     @ ''  File: '' @ get_str md ''file_path'' ''unknown'' @ ''\<newline>''
     @ ''  Lines: '' @ get_str md ''start_line'' ''unknown'' @ ''-'' @ get_str md ''end_line'' ''unknown''
     @ ''\<newline>''
     @ (case map_of md ''docstring'' of
          None \<Rightarrow> []
        | Some v \<Rightarrow>
            if truthy v
            then ''  Docstring: ''
                 @ (if length (py_str v) > 100 then take 100 (py_str v) @ ''...'' else py_str v)
                 @ ''\<newline>''
            else [])
     @ ''  Content:\<newline>''
     @ (case map_of md ''content'' of
          None \<Rightarrow> []
        | Some (PStr c) \<Rightarrow> if length c > 300 then take 300 c @ ''...'' else c
        | Some (PInt n) \<Rightarrow> str_int n)
     @ ''\<newline>''
     @ replicate 50 CHR ''-'' @ ''\<newline>''"

text \<open>The first line of the row formats the similarity, which may raise.\<close>

definition format_result :: "('v, 'd) search_env \<Rightarrow> nat \<Rightarrow> pydict \<Rightarrow> 'd \<Rightarrow> error + string" where
  "format_result env i md distance =
     (case s_similarity env distance of
        Inl e \<Rightarrow> Inl e
      | Inr sim \<Rightarrow> Inr (result_text i md sim))"

text \<open>
  The loop over \<open>enumerate(zip(doc_list, meta_list, dist_list))\<close> with the row format
  \<open>fmt\<close>: a row that is not a dictionary is skipped, and the first exception of a row
  ends the loop.
\<close>

fun format_rows ::
  "(nat \<Rightarrow> pydict \<Rightarrow> 'd \<Rightarrow> error + string) \<Rightarrow> (nat \<times> string \<times> row_meta \<times> 'd) list
     \<Rightarrow> error + string list" where
  "format_rows fmt [] = Inr []"
| "format_rows fmt ((i, doc, m, distance) # rest) =
     (case m of
        NotDict \<Rightarrow> format_rows fmt rest
      | Dict md \<Rightarrow>
          (case fmt i md distance of
             Inl e \<Rightarrow> Inl e
           | Inr text \<Rightarrow>
               (case format_rows fmt rest of
                  Inl e \<Rightarrow> Inl e
                | Inr texts \<Rightarrow> Inr (text # texts))))"

definition format_results ::
  "('v, 'd) search_env \<Rightarrow> string list \<Rightarrow> row_meta list \<Rightarrow> 'd list \<Rightarrow> error + string list" where
  "format_results env doc_list meta_list dist_list =
     format_rows (format_result env) (enumerate 0 (zip doc_list (zip meta_list dist_list)))"

text \<open>What \<open>semantic_search\<close> does with the dictionary the query returned.\<close>

definition semantic_search_results ::
  "('v, 'd) search_env \<Rightarrow> string \<Rightarrow> 'd query_results \<Rightarrow> error + string" where
  "semantic_search_results env query res =
     (case documents res of
        Some (doc_list # _) \<Rightarrow>
          (case metadatas res of
             Some (meta_list # _) \<Rightarrow>
               (case distances res of
                  Some (dist_list # _) \<Rightarrow>
                    if doc_list = [] \<or> meta_list = [] \<or> dist_list = []
                    then Inr (''No results found for query: '' @ quoted query)
                    else if \<not> (doc_list \<noteq> [] \<and> meta_list \<noteq> [] \<and> dist_list \<noteq> [])
                    then Inr (''No results found for query: '' @ quoted query)
                    else if \<not> (length doc_list = length meta_list \<and> length meta_list = length dist_list)
                    then Inr (''Inconsistent result data for query: '' @ quoted query)
                    else (case format_results env doc_list meta_list dist_list of
                            Inl e \<Rightarrow> Inl e
                          | Inr texts \<Rightarrow> Inr (join ''\<newline>'' texts))
                | _ \<Rightarrow> Inr (''No results found for query: '' @ quoted query))
           | _ \<Rightarrow> Inr (''No results found for query: '' @ quoted query))
      | _ \<Rightarrow> Inr (''No results found for query: '' @ quoted query))"

text \<open>\<open>where_filter\<close>: an equality filter on \<open>file_type\<close> when the argument is a non-empty
  string.\<close>

definition where_filter :: "string option \<Rightarrow> (string \<times> string) option" where
  "where_filter file_type_filter =
     (case file_type_filter of
        None \<Rightarrow> None
      | Some f \<Rightarrow> if f \<noteq> [] then Some (''file_type'', f) else None)"

definition semantic_search ::
  "('v, 'd) search_env \<Rightarrow> 'v VectorSearchTool \<Rightarrow> string \<Rightarrow> int \<Rightarrow> string option \<Rightarrow> error + string" where
  "semantic_search env tool query max_results file_type_filter =
     (case vs_code_collection tool of
        None \<Rightarrow> Inr ''No code index found. Please run indexing first.''
      | Some col \<Rightarrow>
          (case s_query env col (s_encode env query) max_results (where_filter file_type_filter) of
             Inl e \<Rightarrow> Inl e
           | Inr res \<Rightarrow> semantic_search_results env query res))"

text \<open>The text of one row of \<open>find_files_by_content\<close>.\<close>

definition file_text :: "nat \<Rightarrow> pydict \<Rightarrow> string \<Rightarrow> string" where
  "file_text i md sim =
     ''File '' @ str_nat (i + 1) @ '' (similarity: '' @ sim @ ''):\<newline>''
     @ ''  Path: '' @ get_str md ''file_path'' ''unknown'' @ ''\<newline>''
     @ ''  Type: '' @ get_str md ''file_type'' ''unknown'' @ ''\<newline>''
     @ ''  Lines: '' @ get_str md ''line_count'' ''unknown'' @ ''\<newline>''
     @ ''  Elements: '' @ get_str md ''element_count'' ''unknown'' @ ''\<newline>''
     @ ''  Summary: '' @ get_str md ''summary'' ''No summary available'' @ ''\<newline>''
     @ (case map_of md ''elements_by_type_str'' of
          None \<Rightarrow> []
        | Some v \<Rightarrow> if truthy v then ''  Contains: '' @ py_str v @ ''\<newline>'' else [])
     @ replicate 40 CHR ''-'' @ ''\<newline>''"

definition format_file :: "('v, 'd) search_env \<Rightarrow> nat \<Rightarrow> pydict \<Rightarrow> 'd \<Rightarrow> error + string" where
  "format_file env i md distance =
     (case s_similarity env distance of
        Inl e \<Rightarrow> Inl e
      | Inr sim \<Rightarrow> Inr (file_text i md sim))"

definition find_files_results ::
  "('v, 'd) search_env \<Rightarrow> string \<Rightarrow> 'd query_results \<Rightarrow> error + string" where
  "find_files_results env query res =
     (case documents res of
        Some (doc_list # _) \<Rightarrow>
          (case metadatas res of
             Some (meta_list # _) \<Rightarrow>
               (case distances res of
                  Some (dist_list # _) \<Rightarrow>
                    if doc_list = [] \<or> meta_list = [] \<or> dist_list = []
                    then Inr (''No files found for query: '' @ quoted query)
                    else if \<not> (doc_list \<noteq> [] \<and> meta_list \<noteq> [] \<and> dist_list \<noteq> [])
                    then Inr (''No files found for query: '' @ quoted query)
                    else if \<not> (length doc_list = length meta_list \<and> length meta_list = length dist_list)
                    then Inr (''Inconsistent file data for query: '' @ quoted query)
                    else (case format_rows (format_file env)
                                 (enumerate 0 (zip doc_list (zip meta_list dist_list))) of
                            Inl e \<Rightarrow> Inl e
                          | Inr texts \<Rightarrow> Inr (join ''\<newline>'' texts))
                | _ \<Rightarrow> Inr (''No files found for query: '' @ quoted query))
           | _ \<Rightarrow> Inr (''No files found for query: '' @ quoted query))
      | _ \<Rightarrow> Inr (''No files found for query: '' @ quoted query))"

text \<open>\<open>find_files_by_content\<close>: the body after the guard runs under \<open>except Exception\<close>.\<close>

definition find_files_by_content ::
  "('v, 'd) search_env \<Rightarrow> 'v VectorSearchTool \<Rightarrow> string \<Rightarrow> int \<Rightarrow> error + string" where
  "find_files_by_content env tool query max_results =
     (case vs_file_collection tool of
        None \<Rightarrow> Inr ''No file index found. Please run indexing first.''
      | Some col \<Rightarrow>
          (case s_query env col (s_encode env query) max_results None of
             Inl e \<Rightarrow> Inr (''Error finding files: '' @ s_error_str env e)
           | Inr res \<Rightarrow>
               (case find_files_results env query res of
                  Inl e \<Rightarrow> Inr (''Error finding files: '' @ s_error_str env e)
                | Inr text \<Rightarrow> Inr text)))"

text \<open>
  \<open>find_elements_by_type\<close>. The values of a \<open>get\<close> are lists by their type, so the
  \<open>isinstance(..., list)\<close> test never fails.
\<close>

definition format_element :: "('v, 'd) search_env \<Rightarrow> string \<Rightarrow> nat \<Rightarrow> pydict \<Rightarrow> string" where
  "format_element env ty i md =
     s_title env ty @ '' '' @ str_nat (i + 1) @ '':\<newline>''
     @ ''  Name: '' @ get_str md ''name'' ''unknown'' @ ''\<newline>''
     @ ''  File: '' @ get_str md ''file_path'' ''unknown'' @ ''\<newline>''
     @ ''  Lines: '' @ get_str md ''start_line'' ''unknown'' @ ''-'' @ get_str md ''end_line'' ''unknown''
     @ ''\<newline>''
     @ replicate 30 CHR ''-'' @ ''\<newline>''"

definition find_elements_results :: "('v, 'd) search_env \<Rightarrow> string \<Rightarrow> get_results \<Rightarrow> string" where
  "find_elements_results env ty res =
     (case documents res of
        None \<Rightarrow> ''No '' @ ty @ '' elements found.''
      | Some docs \<Rightarrow>
          (case metadatas res of
             None \<Rightarrow> ''No '' @ ty @ '' elements found.''
           | Some metas \<Rightarrow>
               if docs = [] \<or> metas = [] then ''No '' @ ty @ '' elements found.''
               else if length docs = 0 \<or> length metas = 0 then ''No '' @ ty @ '' elements found.''
               else join ''\<newline>''
                      (concat (map (\<lambda>(i, doc, m).
                                      case m of NotDict \<Rightarrow> [] | Dict md \<Rightarrow> [format_element env ty i md])
                                 (enumerate 0 (zip docs metas))))))"

definition find_elements_by_type ::
  "('v, 'd) search_env \<Rightarrow> 'v VectorSearchTool \<Rightarrow> string \<Rightarrow> int \<Rightarrow> error + string" where
  "find_elements_by_type env tool ty max_results =
     (case vs_code_collection tool of
        None \<Rightarrow> Inr ''No code index found. Please run indexing first.''
      | Some col \<Rightarrow>
          (case s_get env col (''element_type'', ty) (Some max_results) of
             Inl e \<Rightarrow> Inr (''Error finding '' @ ty @ '' elements: '' @ s_error_str env e)
           | Inr res \<Rightarrow> Inr (find_elements_results env ty res)))"

text \<open>
  \<open>get_file_structure\<close>. The file-level lines come from the first row \<open>get(ids=...)\<close>
  returns, when it is a dictionary; an exception of that lookup is passed over.
\<close>

definition file_info :: "('v, 'd) search_env \<Rightarrow> 'v VectorSearchTool \<Rightarrow> string \<Rightarrow> string" where
  "file_info env tool fpath =
     (case vs_file_collection tool of
        None \<Rightarrow> []
      | Some col \<Rightarrow>
          (case s_get_ids env col [fpath] of
             Inl e \<Rightarrow> []
           | Inr file_results \<Rightarrow>
               (case metadatas file_results of
                  Some (Dict md # _) \<Rightarrow>
                    ''File: '' @ fpath @ ''\<newline>''
                    @ ''Type: '' @ get_str md ''file_type'' ''unknown'' @ ''\<newline>''
                    @ ''Lines: '' @ get_str md ''line_count'' ''unknown'' @ ''\<newline>''
                    @ ''Total elements: '' @ get_str md ''element_count'' ''unknown'' @ ''\<newline>\<newline>''
                | _ \<Rightarrow> [])))"

text \<open>
  The dictionary \<open>elements_by_type\<close> of \<open>get_file_structure\<close>, in insertion order: a row
  joins the group of its \<open>element_type\<close> when that is a string (\<open>unknown\<close> when absent).
\<close>

definition group_add :: "(string \<times> pydict list) list \<Rightarrow> string \<Rightarrow> pydict \<Rightarrow> (string \<times> pydict list) list" where
  "group_add groups ty md =
     (if ty \<in> set (map fst groups)
      then map (\<lambda>(k, mds). if k = ty then (k, mds @ [md]) else (k, mds)) groups
      else groups @ [(ty, [md])])"

definition group_step :: "row_meta \<Rightarrow> (string \<times> pydict list) list \<Rightarrow> (string \<times> pydict list) list" where
  "group_step m groups =
     (case m of
        NotDict \<Rightarrow> groups
      | Dict md \<Rightarrow>
          (case map_of md ''element_type'' of
             None \<Rightarrow> group_add groups ''unknown'' md
           | Some (PStr ty) \<Rightarrow> group_add groups ty md
           | Some (PInt _) \<Rightarrow> groups))"

definition format_group :: "('v, 'd) search_env \<Rightarrow> string \<times> pydict list \<Rightarrow> string list" where
  "format_group env g =
     (case g of (ty, elems) \<Rightarrow>
        [s_upper env ty @ ''S:'']
        @ map (\<lambda>element. ''  - '' @ get_str element ''name'' ''unknown'' @ '' (lines ''
                           @ get_str element ''start_line'' ''unknown'' @ ''-''
                           @ get_str element ''end_line'' ''unknown'' @ '')'') elems
        @ [[]])"

definition get_file_structure ::
  "('v, 'd) search_env \<Rightarrow> 'v VectorSearchTool \<Rightarrow> string \<Rightarrow> error + string" where
  "get_file_structure env tool fpath =
     (case vs_code_collection tool of
        None \<Rightarrow> Inr ''No code index found. Please run indexing first.''
      | Some col \<Rightarrow>
          (case s_get env col (''file_path'', fpath) None of
             Inl e \<Rightarrow> Inr (''Error getting file structure: '' @ s_error_str env e)
           | Inr res \<Rightarrow>
               (case metadatas res of
                  None \<Rightarrow> Inr (''No structure information found for '' @ fpath)
                | Some metas \<Rightarrow>
                    if metas = [] then Inr (''No structure information found for '' @ fpath)
                    else Inr (join ''\<newline>''
                                ([file_info env tool fpath]
                                 @ concat (map (format_group env) (fold group_step metas [])))))))"

section \<open>The tool functions\<close>

text \<open>
  \<open>search_code_tool\<close>: \<open>types_list\<close> keeps the stripped entries of \<open>element_types\<close> that
  are not blank, and \<open>file_filter\<close> is its first entry if it has one.
\<close>

definition types_list :: "string \<Rightarrow> string list option" where
  "types_list element_types =
     (if element_types \<noteq> []
      then Some (map strip (filter (\<lambda>t. strip t \<noteq> []) (split CHR '','' element_types)))
      else None)"

definition file_filter :: "string \<Rightarrow> string option" where
  "file_filter element_types =
     (case types_list element_types of Some (t # _) \<Rightarrow> Some t | _ \<Rightarrow> None)"

definition search_code_tool ::
  "('v, 'd) search_env \<Rightarrow> 'v client \<Rightarrow> string \<Rightarrow> int \<Rightarrow> string \<Rightarrow> error + string" where
  "search_code_tool env cl query max_results element_types =
     (case VectorSearchTool_init env cl of
        Inl e \<Rightarrow> Inl e
      | Inr search_tool \<Rightarrow>
          semantic_search env search_tool query max_results (file_filter element_types))"

definition search_files_tool :: "('v, 'd) search_env \<Rightarrow> 'v client \<Rightarrow> string \<Rightarrow> int \<Rightarrow> error + string" where
  "search_files_tool env cl query max_results =
     (case VectorSearchTool_init env cl of
        Inl e \<Rightarrow> Inl e
      | Inr search_tool \<Rightarrow> find_files_by_content env search_tool query max_results)"

definition get_file_context_tool ::
  "('v, 'd) search_env \<Rightarrow> 'v client \<Rightarrow> string \<Rightarrow> int \<Rightarrow> error + string" where
  "get_file_context_tool env cl fpath max_elements =
     (case VectorSearchTool_init env cl of
        Inl e \<Rightarrow> Inl e
      | Inr search_tool \<Rightarrow> get_file_structure env search_tool fpath)"

text \<open>
  The store's contract for a \<open>where\<close> of the form \<open>{key: value}\<close>: an entry matches when
  its metadata has the key with that string as value.
\<close>

definition where_matches :: "string \<times> string \<Rightarrow> pydict \<Rightarrow> bool" where
  "where_matches w md = (map_of md (fst w) = Some (PStr (snd w)))"

text \<open>
  The rows of a result that are dictionaries, each with its index and its distance: what
  the specification asks \<open>semantic_search\<close> to keep.
\<close>

definition dict_rows :: "row_meta list \<Rightarrow> 'd list \<Rightarrow> (nat \<times> pydict \<times> 'd) list" where
  "dict_rows meta_list dist_list =
     concat (map (\<lambda>i. case meta_list ! i of NotDict \<Rightarrow> [] | Dict md \<Rightarrow> [(i, md, dist_list ! i)])
               [0..<length meta_list])"

text \<open>
  The first list of an array of a query result: empty when the array is missing or holds
  no list.
\<close>

definition first_list :: "'a list list option \<Rightarrow> 'a list" where
  "first_list x = (case x of Some (l # _) \<Rightarrow> l | _ \<Rightarrow> [])"

text \<open>
  An environment to run the search tool on examples: a library that raises \<open>missing\<close> for
  a collection that does not exist, and a store whose query returns a fixed result. A
  distance is an integer, or \<open>None\<close> for a value that is not a number.
\<close>

definition example_search_env :: "error \<Rightarrow> int option query_results \<Rightarrow> (string, int option) search_env" where
  "example_search_env missing res =
     \<lparr>s_encode = (\<lambda>s. s),
      s_query = (\<lambda>col v k w. Inr res),
      s_get = (\<lambda>col w k. Inr \<lparr>documents = Some [], metadatas = Some [], distances = None\<rparr>),
      s_get_ids = (\<lambda>col ids. Inr \<lparr>documents = Some [], metadatas = Some [], distances = None\<rparr>),
      s_missing = missing,
      s_similarity = (\<lambda>d. case d of None \<Rightarrow> Inl TypeError | Some x \<Rightarrow> Inr (str_int (1 - x))),
      s_error_str = (\<lambda>e. ''error''),
      s_title = (\<lambda>s. s),
      s_upper = (\<lambda>s. s)\<rparr>"

text \<open>
  A query result of two rows: the first row's metadata is not a dictionary, the second
  is the metadata of an element \<open>foo\<close>.
\<close>

definition example_rows :: "int option query_results" where
  "example_rows =
     \<lparr>documents = Some [[''d1'', ''d2'']],
      metadatas = Some [[NotDict, Dict [(''name'', PStr ''foo''), (''start_line'', PInt 3)]]],
      distances = Some [[Some 0, Some 1]]\<rparr>"

section \<open>Properties of the string functions\<close>

lemma split_ne: "split sep s \<noteq> []"
  by (induction s) (auto split: list.splits)

lemma join_split: "join [sep] (split sep s) = s"
proof (induction s)
  case Nil then show ?case by simp
next
  case (Cons c cs)
  obtain l ls where e: "split sep cs = l # ls" using split_ne[of sep cs] by (cases "split sep cs") auto
  show ?case using Cons e by (cases ls) auto
qed

lemma spec_windows_Nil: "w = 0 \<or> xs = [] \<Longrightarrow> spec_windows w xs = []"
  by (subst spec_windows.simps) simp

lemma spec_windows_Cons:
  "0 < w \<Longrightarrow> xs \<noteq> [] \<Longrightarrow> spec_windows w xs = take w xs # spec_windows w (drop w xs)"
  by (subst spec_windows.simps) simp

lemma concat_spec_windows: "0 < w \<Longrightarrow> concat (spec_windows w xs) = xs"
proof (induction w xs rule: spec_windows.induct)
  case (1 w xs)
  show ?case
  proof (cases "xs = []")
    case True then show ?thesis by (simp add: spec_windows_Nil)
  next
    case False
    with 1 show ?thesis by (simp add: spec_windows_Cons)
  qed
qed

lemma spec_windows_bounds: "v \<in> set (spec_windows w xs) \<Longrightarrow> v \<noteq> [] \<and> length v \<le> w"
proof (induction w xs rule: spec_windows.induct)
  case (1 w xs)
  show ?case
  proof (cases "w = 0 \<or> xs = []")
    case True with 1(2) show ?thesis by (simp add: spec_windows_Nil)
  next
    case False
    then have "spec_windows w xs = take w xs # spec_windows w (drop w xs)"
      by (simp add: spec_windows_Cons)
    with 1(2) have "v = take w xs \<or> v \<in> set (spec_windows w (drop w xs))" by simp
    then show ?thesis using 1(1) False by auto
  qed
qed

lemma spec_windows_full: "v \<in> set (butlast (spec_windows w xs)) \<Longrightarrow> length v = w"
proof (induction w xs rule: spec_windows.induct)
  case (1 w xs)
  show ?case
  proof (cases "w = 0 \<or> xs = []")
    case True with 1(2) show ?thesis by (simp add: spec_windows_Nil)
  next
    case False
    then have e: "spec_windows w xs = take w xs # spec_windows w (drop w xs)"
      by (simp add: spec_windows_Cons)
    show ?thesis
    proof (cases "drop w xs = []")
      case True with 1(2) e show ?thesis by (simp add: spec_windows_Nil)
    next
      case d: False
      then have l: "length (take w xs) = w" by simp
      from d False have "spec_windows w (drop w xs) \<noteq> []" by (simp add: spec_windows_Cons)
      with 1(2) e have "v = take w xs \<or> v \<in> set (butlast (spec_windows w (drop w xs)))" by auto
      then show ?thesis using l 1(1) False by auto
    qed
  qed
qed

lemma range_step_0: "0 < w \<Longrightarrow> range_step 0 w = []"
  by (simp add: range_step_def)

lemma range_step_rec:
  assumes "0 < w" "0 < n"
  shows "range_step n w = 0 # map (\<lambda>i. i + w) (range_step (n - w) w)"
proof -
  obtain m where m: "n = Suc m" using assms by (cases n) auto
  have l: "(n + w - 1) div w = Suc (m div w)" using assms m by (simp add: div_add_self2)
  have r: "(n - w + w - 1) div w = m div w"
  proof (cases "w \<le> n")
    case True then show ?thesis using m by simp
  next
    case False
    then have "n - w + w - 1 = w - 1" "m < w" "w - 1 < w" using assms m by simp_all
    then show ?thesis by simp
  qed
  have d: "(n + w - 1) div w = Suc ((n - w + w - 1) div w)" using l r by simp
  show ?thesis unfolding range_step_def d
    by (simp add: upt_rec[of 0] map_Suc_upt[symmetric] del: upt_Suc)
qed

lemma slices_spec_windows:
  "0 < w \<Longrightarrow> map (\<lambda>i. slice xs i (i + w)) (range_step (length xs) w) = spec_windows w xs"
proof (induction w xs rule: spec_windows.induct)
  case (1 w xs)
  show ?case
  proof (cases "xs = []")
    case True then show ?thesis using 1(2) by (simp add: spec_windows_Nil range_step_0)
  next
    case False
    have ih: "map (\<lambda>i. slice (drop w xs) i (i + w)) (range_step (length (drop w xs)) w) = spec_windows w (drop w xs)"
      using 1 False by simp
    have s: "\<And>i. slice xs (i + w) (i + w + w) = slice (drop w xs) i (i + w)"
      by (simp add: slice_def add.commute)
    have "map (\<lambda>i. slice xs i (i + w)) (range_step (length xs) w)
          = slice xs 0 w # map (\<lambda>i. slice (drop w xs) i (i + w)) (range_step (length xs - w) w)"
      using range_step_rec[of w "length xs"] 1(2) False by (simp add: o_def s)
    also have "\<dots> = take w xs # spec_windows w (drop w xs)" using ih by (simp add: slice_def)
    also have "\<dots> = spec_windows w xs" using False 1(2) by (simp add: spec_windows_Cons)
    finally show ?thesis .
  qed
qed

lemma join_concat: "\<forall>v\<in>set ws. v \<noteq> [] \<Longrightarrow> join sep (map (join sep) ws) = join sep (concat ws)"
proof (induction ws)
  case Nil then show ?case by simp
next
  case (Cons v ws)
  have j: "\<And>a b. a \<noteq> [] \<Longrightarrow> b \<noteq> [] \<Longrightarrow> join sep (a @ b) = join sep a @ sep @ join sep b"
  proof -
    fix a b :: "string list" assume "a \<noteq> []" "b \<noteq> []"
    then show "join sep (a @ b) = join sep a @ sep @ join sep b"
      by (induction sep a rule: join.induct) (auto simp: neq_Nil_conv)
  qed
  show ?case
  proof (cases ws)
    case Nil then show ?thesis by simp
  next
    case (Cons u us)
    then have "concat ws \<noteq> []" using Cons.prems by auto
    then show ?thesis using Cons.IH Cons.prems Cons j[of v "concat ws"] by simp
  qed
qed

lemma concat_singletons: "\<forall>x\<in>set xs. f x = [g x] \<Longrightarrow> concat (map f xs) = map g xs"
  by (induction xs) simp_all

lemma length_range_step: "length (range_step n w) = (n + w - 1) div w"
  by (simp add: range_step_def)

lemma chunks_by_window:
  fixes c :: string
  defines "lines \<equiv> split CHR ''\<newline>'' c"
  defines "ws \<equiv> spec_windows chunk_size lines"
  shows "simple_text_chunks md5_hex fp c =
     concat (map (\<lambda>k. if strip (join ''\<newline>'' (ws ! k)) \<noteq> []
                       then [mk_element md5_hex (''chunk_'' @ str_nat k) ''text_chunk'' (path_str fp)
                               (k * chunk_size + 1) (min (k * chunk_size + chunk_size) (length lines))
                               (join ''\<newline>'' (ws ! k)) []]
                       else []) [0..<length ws])"
proof -
  have pos: "0 < chunk_size" by (simp add: chunk_size_def)
  have ws: "ws = map (\<lambda>i. slice lines i (i + chunk_size)) (range_step (length lines) chunk_size)"
    unfolding ws_def using slices_spec_windows[OF pos, of lines] by simp
  then have len: "length ws = (length lines + chunk_size - 1) div chunk_size"
    by (simp add: length_range_step)
  have nth: "ws ! k = slice lines (k * chunk_size) (k * chunk_size + chunk_size)" if "k < length ws" for k
    using that len unfolding ws range_step_def by simp
  have "simple_text_chunks md5_hex fp c =
        concat (map (\<lambda>k. chunk_at md5_hex fp lines (k * chunk_size)) [0..<length ws])"
    unfolding simple_text_chunks_def lines_def[symmetric] Let_def range_step_def len
    by (simp add: o_def)
  also have "map (\<lambda>k. chunk_at md5_hex fp lines (k * chunk_size)) [0..<length ws] =
     map (\<lambda>k. if strip (join ''\<newline>'' (ws ! k)) \<noteq> []
                       then [mk_element md5_hex (''chunk_'' @ str_nat k) ''text_chunk'' (path_str fp)
                               (k * chunk_size + 1) (min (k * chunk_size + chunk_size) (length lines))
                               (join ''\<newline>'' (ws ! k)) []]
                       else []) [0..<length ws]"
    using pos by (intro map_cong refl) (simp add: chunk_at_def Let_def nth)
  finally show ?thesis .
qed

lemma chunks_all_nonblank:
  fixes c :: string
  defines "lines \<equiv> split CHR ''\<newline>'' c"
  defines "ws \<equiv> spec_windows chunk_size lines"
  assumes nb: "\<forall>v\<in>set ws. strip (join ''\<newline>'' v) \<noteq> []"
  shows "map content (simple_text_chunks md5_hex fp c) = map (join ''\<newline>'') ws"
proof -
  have "simple_text_chunks md5_hex fp c =
      map (\<lambda>k. mk_element md5_hex (''chunk_'' @ str_nat k) ''text_chunk'' (path_str fp)
                               (k * chunk_size + 1) (min (k * chunk_size + chunk_size) (length lines))
                               (join ''\<newline>'' (ws ! k)) []) [0..<length ws]"
    unfolding chunks_by_window lines_def[symmetric] ws_def[symmetric]
    by (rule concat_singletons) (use nb in simp)
  then have "map content (simple_text_chunks md5_hex fp c) = map (\<lambda>k. join ''\<newline>'' (ws ! k)) [0..<length ws]"
    by (simp add: mk_element_def o_def)
  also have "\<dots> = map (join ''\<newline>'') (map (\<lambda>k. ws ! k) [0..<length ws])" by (simp add: o_def)
  also have "\<dots> = map (join ''\<newline>'') ws" by (simp add: map_nth)
  finally show ?thesis .
qed

text \<open>
  Claim C4, as amended. The lines of a file routed to the chunk parser are cut into
  consecutive windows of 50 lines: the windows concatenate to the lines, none is empty,
  and all but the last hold exactly 50 lines. The parser emits, in ascending order, one
  \<open>text_chunk\<close> element for each window that is not blank, named \<open>chunk_k\<close> for the
  zero-based window index \<open>k\<close>, spanning the lines \<open>50k + 1\<close> to \<open>min (50k + 50) n\<close>,
  whose content is the window's lines joined by newlines. When no window is blank,
  joining the emitted contents with one newline between consecutive chunks gives back
  the file.
\<close>

theorem chunk_fallback_partition:
  "let lines = split CHR ''\<newline>'' c; ws = spec_windows chunk_size lines in
     concat ws = lines
   \<and> (\<forall>v\<in>set ws. v \<noteq> [] \<and> length v \<le> chunk_size)
   \<and> (\<forall>v\<in>set (butlast ws). length v = chunk_size)
   \<and> simple_text_chunks md5_hex fp c =
       concat (map (\<lambda>k. if strip (join ''\<newline>'' (ws ! k)) \<noteq> []
                       then [mk_element md5_hex (''chunk_'' @ str_nat k) ''text_chunk'' (path_str fp)
                               (k * chunk_size + 1) (min (k * chunk_size + chunk_size) (length lines))
                               (join ''\<newline>'' (ws ! k)) []]
                       else []) [0..<length ws])
   \<and> ((\<forall>v\<in>set ws. strip (join ''\<newline>'' v) \<noteq> []) \<longrightarrow>
        join ''\<newline>'' (map content (simple_text_chunks md5_hex fp c)) = c)"
proof -
  define lines where "lines = split CHR ''\<newline>'' c"
  define ws where "ws = spec_windows chunk_size lines"
  have pos: "0 < chunk_size" by (simp add: chunk_size_def)
  have a: "concat ws = lines" unfolding ws_def by (rule concat_spec_windows[OF pos])
  have b: "\<forall>v\<in>set ws. v \<noteq> [] \<and> length v \<le> chunk_size"
    unfolding ws_def using spec_windows_bounds by blast
  have b': "\<forall>v\<in>set (butlast ws). length v = chunk_size"
    unfolding ws_def using spec_windows_full by blast
  have d: "simple_text_chunks md5_hex fp c =
       concat (map (\<lambda>k. if strip (join ''\<newline>'' (ws ! k)) \<noteq> []
                       then [mk_element md5_hex (''chunk_'' @ str_nat k) ''text_chunk'' (path_str fp)
                               (k * chunk_size + 1) (min (k * chunk_size + chunk_size) (length lines))
                               (join ''\<newline>'' (ws ! k)) []]
                       else []) [0..<length ws])"
    unfolding ws_def lines_def by (rule chunks_by_window)
  have e: "join ''\<newline>'' (map content (simple_text_chunks md5_hex fp c)) = c"
    if nb: "\<forall>v\<in>set ws. strip (join ''\<newline>'' v) \<noteq> []"
  proof -
    have "map content (simple_text_chunks md5_hex fp c) = map (join ''\<newline>'') ws"
      using nb unfolding ws_def lines_def by (rule chunks_all_nonblank)
    then have "join ''\<newline>'' (map content (simple_text_chunks md5_hex fp c)) = join ''\<newline>'' (concat ws)"
      using b join_concat[of ws "''\<newline>''"] by simp
    also have "\<dots> = c" unfolding a lines_def using join_split[of "CHR ''\<newline>''" c] by simp
    finally show ?thesis .
  qed
  show ?thesis
    unfolding Let_def lines_def[symmetric] ws_def[symmetric] using a b b' d e by blast
qed

text \<open>The two-line file \<open>a\<newline>b\<close>: one window, not blank, and the join gives the file back.\<close>

theorem chunk_fallback_partition_witness:
  "list_all (\<lambda>v. strip (join ''\<newline>'' v) \<noteq> [])
     (spec_windows chunk_size (split CHR ''\<newline>'' ''a\<newline>b''))
   \<and> join ''\<newline>'' (map content (simple_text_chunks (\<lambda>s. s) [''x.jsx''] ''a\<newline>b'')) = ''a\<newline>b''
   \<and> map name (simple_text_chunks (\<lambda>s. s) [''x.jsx''] ''a\<newline>b'') = [''chunk_0'']"
proof -
  have h: "list_all (\<lambda>v. strip (join ''\<newline>'' v) \<noteq> [])
     (spec_windows chunk_size (split CHR ''\<newline>'' ''a\<newline>b''))"
    by code_simp
  have n: "map name (simple_text_chunks (\<lambda>s. s) [''x.jsx''] ''a\<newline>b'') = [''chunk_0'']"
    by code_simp
  show ?thesis
    using h n chunk_fallback_partition[of "''a\<newline>b''" "\<lambda>s. s" "[''x.jsx'']"]
    unfolding Let_def list_all_iff by blast
qed

text \<open>
  Claim C4 as written fails: plain concatenation of the emitted contents loses the
  newline between two windows (a file of 51 lines), and a blank window is not emitted
  at all (a file holding one space).
\<close>

theorem chunk_concat_counterexample:
  "concat (map content (simple_text_chunks (\<lambda>s. s) [''x.jsx'']
       (join ''\<newline>'' (replicate 50 ''a'' @ [''b'']))))
     \<noteq> join ''\<newline>'' (replicate 50 ''a'' @ [''b''])
   \<and> concat (map content (simple_text_chunks (\<lambda>s. s) [''x.jsx''] '' '')) \<noteq> '' ''"
  by code_simp

section \<open>Properties of the markdown parser\<close>

lemma md_regions_no_heading:
  assumes "\<forall>l\<in>set sec. \<not> is_heading l"
  shows "md_regions nm s h sec = [(h, s, sec)]"
proof -
  have tw: "takeWhile (\<lambda>l. \<not> is_heading l) sec = sec" "dropWhile (\<lambda>l. \<not> is_heading l) sec = []"
    using assms by simp_all
  show ?thesis by (subst md_regions.simps) (simp add: tw)
qed

lemma md_regions_heading:
  assumes "\<forall>l\<in>set sec. \<not> is_heading l" and "is_heading l"
  shows "md_regions nm s h (sec @ l # ls) = (h, s, sec) # md_regions nm (s + length sec + 1) (nm l) ls"
proof -
  have tw: "takeWhile (\<lambda>l. \<not> is_heading l) (sec @ l # ls) = sec"
       "dropWhile (\<lambda>l. \<not> is_heading l) (sec @ l # ls) = l # ls"
    using assms by simp_all
  show ?thesis by (subst md_regions.simps) (simp add: tw)
qed

lemma md_fold_regions:
  assumes "current_section_start st + length (current_section st) = i + 1"
      and "\<forall>l\<in>set (current_section st). \<not> is_heading l"
  shows "md_final md5_hex fp (i + length ls) (fold (md_step md5_hex fp) (enumerate i ls) st)
       = elements st @ map (section_element md5_hex fp)
           (filter (\<lambda>r. has_content (snd (snd r)))
              (md_regions (\<lambda>h. strip (strip_chars ''#'' h)) (current_section_start st)
                 (current_heading st) (current_section st @ ls)))"
  using assms
proof (induction ls arbitrary: st i)
  case Nil
  have e: "current_section_start st + length (current_section st) - 1 = i" using Nil(1) by simp
  show ?case
    using Nil(2) e by (simp add: md_regions_no_heading section_element_def md_final_def)
next
  case (Cons l ls)
  let ?st' = "md_step md5_hex fp (i, l) st"
  show ?case
  proof (cases "is_heading l")
    case True
    have e: "current_section_start st + length (current_section st) - 1 = i" using Cons.prems(1) by simp
    have s1: "current_section_start ?st' + length (current_section ?st') = Suc i + 1"
      using True by (simp add: md_step_def Let_def)
    have s2: "\<forall>l\<in>set (current_section ?st'). \<not> is_heading l"
      using True by (simp add: md_step_def Let_def)
    have st': "current_section ?st' = []" "current_section_start ?st' = i + 2"
         "current_heading ?st' = strip (strip_chars ''#'' l)"
         "elements ?st' = elements st @ (if has_content (current_section st)
              then [section_element md5_hex fp (current_heading st, current_section_start st, current_section st)] else [])"
      using True e by (simp_all add: md_step_def Let_def section_element_def)
    have i2: "current_section_start st + length (current_section st) + 1 = i + 2"
      using Cons.prems(1) by simp
    show ?thesis
      using Cons.IH[OF s1 s2] Cons.prems True
      by (simp add: st' md_regions_heading)
  next
    case False
    have s1: "current_section_start ?st' + length (current_section ?st') = Suc i + 1"
      using False Cons.prems(1) by (simp add: md_step_def Let_def)
    have s2: "\<forall>l\<in>set (current_section ?st'). \<not> is_heading l"
      using False Cons.prems(2) by (simp add: md_step_def Let_def)
    have st': "current_section ?st' = current_section st @ [l]" "current_section_start ?st' = current_section_start st"
         "current_heading ?st' = current_heading st" "elements ?st' = elements st"
      using False by (simp_all add: md_step_def Let_def)
    show ?thesis
      using Cons.IH[OF s1 s2] by (simp add: st')
  qed
qed

lemma parse_markdown_regions:
  "parse_markdown md5_hex fp c =
     map (section_element md5_hex fp)
       (filter (\<lambda>r. has_content (snd (snd r)))
          (md_regions (\<lambda>h. strip (strip_chars ''#'' h)) 1 ''Introduction'' (split CHR ''\<newline>'' c)))"
  unfolding parse_markdown_def
  using md_fold_regions[of "\<lparr>elements = [], current_section = [], current_section_start = 1,
                  current_heading = ''Introduction''\<rparr>" 0 md5_hex fp "split CHR ''\<newline>'' c"]
  by (simp add: Let_def)

lemma md_regions_last:
  assumes "dropWhile (\<lambda>l. \<not> is_heading l) ls = []"
  shows "md_regions nm s h ls = [(h, s, takeWhile (\<lambda>l. \<not> is_heading l) ls)]"
  by (subst md_regions.simps) (simp only: assms list.case)

lemma md_regions_next:
  assumes "dropWhile (\<lambda>l. \<not> is_heading l) ls = x # rest"
  shows "md_regions nm s h ls =
     (h, s, takeWhile (\<lambda>l. \<not> is_heading l) ls) #
     md_regions nm (s + length (takeWhile (\<lambda>l. \<not> is_heading l) ls) + 1) (nm x) rest"
  by (subst md_regions.simps) (simp only: assms list.case)

lemma md_regions_labelled:
  "md_regions nm s (case hl of None \<Rightarrow> h | Some l \<Rightarrow> nm l) ls =
     map (\<lambda>(x, s', b). ((case x of None \<Rightarrow> h | Some l \<Rightarrow> nm l), s', b))
       (md_regions Some s hl ls)"
proof (induction ls arbitrary: s hl rule: length_induct)
  case (1 ls)
  show ?case
  proof (cases "dropWhile (\<lambda>l. \<not> is_heading l) ls")
    case Nil
    then show ?thesis by (simp only: md_regions_last) simp
  next
    case (Cons x rest)
    have "length (dropWhile (\<lambda>l. \<not> is_heading l) ls) \<le> length ls" by (rule length_dropWhile_le)
    then have "length rest < length ls" using Cons by simp
    then have "md_regions nm (s + length (takeWhile (\<lambda>l. \<not> is_heading l) ls) + 1)
                 (case Some x of None \<Rightarrow> h | Some l \<Rightarrow> nm l) rest =
               map (\<lambda>(x, s', b). ((case x of None \<Rightarrow> h | Some l \<Rightarrow> nm l), s', b))
                 (md_regions Some (s + length (takeWhile (\<lambda>l. \<not> is_heading l) ls) + 1) (Some x) rest)"
      using 1 by blast
    then show ?thesis by (simp only: md_regions_next[OF Cons]) simp
  qed
qed

lemma parse_markdown_labelled:
  "parse_markdown md5_hex fp c =
     map (\<lambda>(x, s, b). section_element md5_hex fp
                         ((case x of None \<Rightarrow> ''Introduction'' | Some l \<Rightarrow> strip (strip_chars ''#'' l)), s, b))
       (filter (\<lambda>r. has_content (snd (snd r))) (md_regions Some 1 None (split CHR ''\<newline>'' c)))"
proof -
  have "md_regions (\<lambda>h. strip (strip_chars ''#'' h)) 1 ''Introduction'' (split CHR ''\<newline>'' c) =
        map (\<lambda>(x, s', b). ((case x of None \<Rightarrow> ''Introduction'' | Some l \<Rightarrow> strip (strip_chars ''#'' l)), s', b))
          (md_regions Some 1 None (split CHR ''\<newline>'' c))"
    using md_regions_labelled[where nm = "\<lambda>h. strip (strip_chars ''#'' h)" and s = 1 and hl = None
        and h = "''Introduction''" and ls = "split CHR ''\<newline>'' c"] by simp
  then show ?thesis
    unfolding parse_markdown_regions
    by (simp add: filter_map o_def split_def)
qed

lemma section_element_describes:
  "describes_section
     (section_element md5_hex fp
        ((case x of None \<Rightarrow> ''Introduction'' | Some l \<Rightarrow> strip (strip_chars ''#'' l)), s, b))
     (x, s, b)"
  by (simp add: describes_section_def section_element_def mk_element_def markers_outermost_def
      spec_heading_text_def split: option.splits)

text \<open>
  A heading line that begins with its marker, and that either has no trailing whitespace
  or whose text, once trimmed, does not end in a marker, is one whose heading text does
  not depend on trimming the line first.
\<close>

lemma rev_dropWhile_rev_id:
  assumes "xs \<noteq> []" "\<not> Q (last xs)"
  shows "rev (dropWhile Q (rev xs)) = xs"
proof -
  have "rev xs \<noteq> []" "\<not> Q (hd (rev xs))" using assms by (simp_all add: hd_rev)
  then have "dropWhile Q (rev xs) = rev xs" by (cases "rev xs") simp_all
  then show ?thesis by simp
qed

lemma dropWhile_keeps_last:
  assumes "xs \<noteq> []" "\<not> Q (last xs)"
  shows "dropWhile Q xs \<noteq> [] \<and> last (dropWhile Q xs) = last xs"
  using assms by (induction xs) auto

lemma dropWhile_append_last:
  assumes "xs \<noteq> []" "\<not> Q (last xs)"
  shows "dropWhile Q (xs @ ys) = dropWhile Q xs @ ys"
  using assms by (intro dropWhile_append1[of "last xs"]) simp_all

lemma strip_append_spaces:
  assumes "m \<noteq> []" "\<not> isspace (last m)" "\<forall>c\<in>set ws. isspace c"
  shows "strip (m @ ws) = strip m"
proof -
  let ?n = "dropWhile isspace m"
  have n: "?n \<noteq> []" "\<not> isspace (last ?n)"
    using dropWhile_keeps_last[where Q = isspace and xs = m] assms(1,2) by simp_all
  have "dropWhile isspace (rev ws @ rev ?n) = dropWhile isspace (rev ?n)"
    using assms(3) by (intro dropWhile_append2) simp
  moreover have "dropWhile isspace (m @ ws) = ?n @ ws"
    using dropWhile_append_last[where Q = isspace and xs = m and ys = ws] assms(1,2) by simp
  moreover have "dropWhile isspace (rev ?n) = rev ?n"
    using n by (cases "rev ?n") (simp_all add: hd_rev)
  ultimately show ?thesis by (simp add: strip_def)
qed

lemma strip_decompose:
  "\<exists>ws. dropWhile isspace l = strip l @ ws \<and> (\<forall>c\<in>set ws. isspace c)"
proof -
  let ?d = "dropWhile isspace l"
  have "?d = rev (takeWhile isspace (rev ?d) @ dropWhile isspace (rev ?d))" by simp
  then have "?d = rev (dropWhile isspace (rev ?d)) @ rev (takeWhile isspace (rev ?d))"
    by (simp only: rev_append)
  moreover have "\<forall>c\<in>set (rev (takeWhile isspace (rev ?d))). isspace c"
    by (auto dest: set_takeWhileD)
  ultimately show ?thesis unfolding strip_def by blast
qed

lemma markers_outermost_unindented:
  assumes "l \<noteq> []" "\<not> isspace (hd l)"
    and "\<not> isspace (last l) \<or> last (strip l) \<noteq> CHR ''#''"
  shows "markers_outermost l"
proof (cases "isspace (last l)")
  case False
  have "dropWhile isspace l = l" using assms(1,2) by (cases l) simp_all
  then have "strip l = l" using False assms(1) by (simp add: strip_def rev_dropWhile_rev_id)
  then show ?thesis by (simp add: markers_outermost_def)
next
  case True
  then have nh: "last (strip l) \<noteq> CHR ''#''" using assms(3) by simp
  let ?P = "\<lambda>c. c \<in> set ''#''"
  have d: "dropWhile isspace l = l" using assms(1,2) by (cases l) simp_all
  obtain ws where l: "l = strip l @ ws" and ws: "\<forall>c\<in>set ws. isspace c"
    using strip_decompose[of l] d by auto
  have sne: "strip l \<noteq> []"
  proof
    assume "strip l = []"
    then have "l = ws" using l by simp
    then have "isspace (hd l)" using ws assms(1) by (cases l) auto
    then show False using assms(2) by simp
  qed
  have wne: "ws \<noteq> []"
  proof
    assume "ws = []"
    then have e: "strip l = l" using l by simp
    have "rev l \<noteq> []" "isspace (hd (rev l))" using True assms(1) by (simp_all add: hd_rev)
    then obtain a list where al: "rev l = a # list" "isspace a" by (cases "rev l") auto
    have "length (dropWhile isspace list) \<le> length list" by (rule length_dropWhile_le)
    then have "length (dropWhile isspace (rev l)) < length (rev l)" using al by simp
    then have "dropWhile isspace (rev l) \<noteq> rev l" by auto
    moreover from e d have "rev (dropWhile isspace (rev l)) = l" by (simp add: strip_def)
    then have "rev (rev (dropWhile isspace (rev l))) = rev l" by (rule arg_cong)
    then have "dropWhile isspace (rev l) = rev l" by simp
    ultimately show False by simp
  qed
  have ls: "\<not> isspace (last (strip l))"
  proof -
    have "dropWhile isspace (rev l) \<noteq> []" using sne d by (simp add: strip_def)
    then have "\<not> isspace (hd (dropWhile isspace (rev l)))" by (rule hd_dropWhile)
    then show ?thesis using sne d by (simp add: strip_def last_rev)
  qed
  have lp: "\<not> ?P (last (strip l))" using nh by simp
  let ?m = "dropWhile ?P (strip l)"
  have m: "?m \<noteq> []" "last ?m = last (strip l)"
    using dropWhile_keeps_last[where Q = ?P and xs = "strip l"] sne lp by simp_all
  have "isspace (last ws)" using ws wne by simp
  moreover have "\<not> isspace CHR ''#''" by (simp add: isspace_def)
  ultimately have lw: "\<not> ?P (last ws)" by auto
  have 1: "strip_chars ''#'' (strip l @ ws) = ?m @ ws"
  proof -
    have a: "dropWhile ?P (strip l @ ws) = ?m @ ws" using dropWhile_append_last[where Q = ?P and xs = "strip l" and ys = ws] sne lp by simp
    have "?m @ ws \<noteq> []" "\<not> ?P (last (?m @ ws))" using wne lw by simp_all
    then have "rev (dropWhile ?P (rev (?m @ ws))) = ?m @ ws" by (rule rev_dropWhile_rev_id)
    then show ?thesis unfolding strip_chars_def a .
  qed
  have 2: "strip_chars ''#'' (strip l) = ?m"
    unfolding strip_chars_def using rev_dropWhile_rev_id[of ?m ?P] m lp by simp
  have 3: "strip (?m @ ws) = strip ?m"
    using strip_append_spaces[of ?m ws] m ls ws by simp
  have "strip (strip_chars ''#'' l) = strip (strip_chars ''#'' (strip l))"
    by (subst l) (simp only: 1 2 3)
  then show ?thesis by (simp add: markers_outermost_def)
qed

text \<open>
  Claim C5, as amended. The lines of a markdown file are its content split at newlines
  (a final newline leaves an empty last line). The regions of the file are the text
  before the first heading line and, for each heading line, the text from the line after
  it to the line before the next heading line or to the last line. The parser emits, in
  order, exactly one \<open>markdown_section\<close> element for every region that has a non-blank
  line, and none for the others. The element spans the lines of its region and its
  content is the text of the region, stripped. The element of the text before the first
  heading is named \<open>Introduction\<close>. The element of a heading whose text does not depend
  on trimming the line before the markers are removed is named by the heading stripped of
  marker characters and surrounding whitespace; nothing is said of the name under any
  other heading line. Every heading line that begins with its marker, and that has no
  trailing whitespace or whose trimmed text does not end in a marker, is of that kind.
  The file of the scenario, without a final newline, yields exactly \<open>A\<close> on lines 2 to 4
  and \<open>B\<close> on lines 6 to 8.
\<close>

theorem parse_markdown_sections:
  "list_all2 describes_section (parse_markdown md5_hex fp c)
     (filter (\<lambda>r. has_content (snd (snd r))) (md_regions Some 1 None (split CHR ''\<newline>'' c)))
   \<and> (l \<noteq> [] \<and> \<not> isspace (hd l) \<and> (\<not> isspace (last l) \<or> last (strip l) \<noteq> CHR ''#'')
        \<longrightarrow> markers_outermost l)
   \<and> parse_markdown md5_hex fp ''# A\<newline>b1\<newline>b2\<newline>b3\<newline># B\<newline>c1\<newline>c2\<newline>c3'' =
       [mk_element md5_hex ''A'' ''markdown_section'' (path_str fp) 2 4 ''b1\<newline>b2\<newline>b3'' [],
        mk_element md5_hex ''B'' ''markdown_section'' (path_str fp) 6 8 ''c1\<newline>c2\<newline>c3'' []]"
proof (intro conjI)
  show "list_all2 describes_section (parse_markdown md5_hex fp c)
     (filter (\<lambda>r. has_content (snd (snd r))) (md_regions Some 1 None (split CHR ''\<newline>'' c)))"
    unfolding parse_markdown_labelled list_all2_map1
    by (rule list_all2_all_nthI) (auto simp: section_element_describes split: prod.splits)
next
  show "l \<noteq> [] \<and> \<not> isspace (hd l) \<and> (\<not> isspace (last l) \<or> last (strip l) \<noteq> CHR ''#'')
        \<longrightarrow> markers_outermost l"
    using markers_outermost_unindented[of l] by blast
next
  show "parse_markdown md5_hex fp ''# A\<newline>b1\<newline>b2\<newline>b3\<newline># B\<newline>c1\<newline>c2\<newline>c3'' =
       [mk_element md5_hex ''A'' ''markdown_section'' (path_str fp) 2 4 ''b1\<newline>b2\<newline>b3'' [],
        mk_element md5_hex ''B'' ''markdown_section'' (path_str fp) 6 8 ''c1\<newline>c2\<newline>c3'' []]"
    by code_simp
qed

text \<open>
  A file with text before the first heading, a blank section under \<open># A\<close>, a heading
  \<open>## B\<close> followed by a blank, and an indented heading \<open># C\<close>: three elements are
  emitted, and the first two are named \<open>Introduction\<close> and \<open>B\<close>.
\<close>

theorem parse_markdown_sections_witness:
  "filter (\<lambda>r. has_content (snd (snd r)))
     (md_regions Some 1 None
        (split CHR ''\<newline>'' ''intro\<newline># A\<newline>\<newline>## B \<newline>x\<newline>  # C\<newline>y''))
     = [(None, 1, [''intro'']), (Some ''## B '', 5, [''x'']), (Some ''  # C'', 7, [''y''])]
   \<and> markers_outermost ''## B ''
   \<and> spec_heading_text ''## B '' = ''B''
   \<and> \<not> markers_outermost ''  # C''
   \<and> map (\<lambda>e. (start_line e, end_line e, content e))
        (parse_markdown (\<lambda>s. s) [''doc.md''] ''intro\<newline># A\<newline>\<newline>## B \<newline>x\<newline>  # C\<newline>y'')
      = [(1, 1, ''intro''), (5, 5, ''x''), (7, 7, ''y'')]
   \<and> take 2 (map name
        (parse_markdown (\<lambda>s. s) [''doc.md''] ''intro\<newline># A\<newline>\<newline>## B \<newline>x\<newline>  # C\<newline>y''))
      = [''Introduction'', ''B'']"
proof -
  let ?c = "''intro\<newline># A\<newline>\<newline>## B \<newline>x\<newline>  # C\<newline>y''"
  have r: "filter (\<lambda>r. has_content (snd (snd r))) (md_regions Some 1 None (split CHR ''\<newline>'' ?c))
     = [(None, 1, [''intro'']), (Some ''## B '', 5, [''x'']), (Some ''  # C'', 7, [''y''])]"
    by code_simp
  have h: "\<not> isspace (hd ''## B '')" "last (strip ''## B '') \<noteq> CHR ''#''" by code_simp+
  have m1: "markers_outermost ''## B ''"
    using parse_markdown_sections[where l = "''## B ''", THEN conjunct2, THEN conjunct1] h by simp
  have m2: "\<not> markers_outermost ''  # C''" by code_simp
  have t: "spec_heading_text ''## B '' = ''B''" by code_simp
  have s: "strip ''intro'' = ''intro''" "strip ''x'' = ''x''" "strip ''y'' = ''y''"
    by code_simp+
  have "list_all2 describes_section (parse_markdown (\<lambda>s. s) [''doc.md''] ?c)
          [(None, 1, [''intro'']), (Some ''## B '', 5, [''x'']), (Some ''  # C'', 7, [''y''])]"
    using parse_markdown_sections[where c = ?c and md5_hex = "\<lambda>s. s" and fp = "[''doc.md'']",
        THEN conjunct1]
    unfolding r by simp
  then obtain e1 e2 e3 where
    p: "parse_markdown (\<lambda>s. s) [''doc.md''] ?c = [e1, e2, e3]"
    and d1: "describes_section e1 (None, 1, [''intro''])"
    and d2: "describes_section e2 (Some ''## B '', 5, [''x''])"
    and d3: "describes_section e3 (Some ''  # C'', 7, [''y''])"
    by (auto simp: list_all2_Cons2)
  have spans: "map (\<lambda>e. (start_line e, end_line e, content e)) (parse_markdown (\<lambda>s. s) [''doc.md''] ?c)
      = [(1, 1, ''intro''), (5, 5, ''x''), (7, 7, ''y'')]"
    using d1 d2 d3 unfolding p describes_section_def by (simp add: s)
  have names: "take 2 (map name (parse_markdown (\<lambda>s. s) [''doc.md''] ?c)) = [''Introduction'', ''B'']"
    using d1 d2 m1 t unfolding p describes_section_def by simp
  show ?thesis using r m1 m2 t spans names by blast
qed

text \<open>
  Claim C5 as written fails: of the regions that follow the headings \<open>A\<close> and \<open>B\<close>, the
  blank one after \<open>A\<close> gives no element; when the file of the scenario ends in a
  newline, section \<open>B\<close> spans lines 6 to 9; and the section under an indented heading
  \<open># A\<close> is named with its marker, not \<open>A\<close>.
\<close>

theorem markdown_sections_counterexample:
  "map fst (md_regions Some 1 None (split CHR ''\<newline>'' ''# A\<newline>\<newline># B\<newline>x''))
     = [None, Some ''# A'', Some ''# B'']
   \<and> map name (parse_markdown (\<lambda>s. s) [''doc.md''] ''# A\<newline>\<newline># B\<newline>x'') = [''B'']
   \<and> map (\<lambda>e. (name e, start_line e, end_line e))
        (parse_markdown (\<lambda>s. s) [''doc.md'']
           ''# A\<newline>b1\<newline>b2\<newline>b3\<newline># B\<newline>c1\<newline>c2\<newline>c3\<newline>'')
      = [(''A'', 2, 4), (''B'', 6, 9)]
   \<and> map name (parse_markdown (\<lambda>s. s) [''doc.md''] ''  # A\<newline>x'') = [''# A'']
   \<and> spec_heading_text ''  # A'' = ''A''"
  by code_simp

section \<open>Properties of the emitted elements\<close>

lemma chunk_element:
  assumes "e \<in> set (simple_text_chunks md5_hex fp c)"
  shows "1 \<le> start_line e \<and> start_line e \<le> end_line e \<and>
         content e = source_text c (start_line e) (end_line e)"
proof -
  define lines where "lines = split CHR ''\<newline>'' c"
  from assms obtain i where i: "i \<in> set (range_step (length lines) chunk_size)"
      and e: "e \<in> set (chunk_at md5_hex fp lines i)"
    by (auto simp: simple_text_chunks_def Let_def lines_def)
  from i have "i \<in> (\<lambda>k. k * chunk_size) ` {0..<(length lines + chunk_size - 1) div chunk_size}"
    unfolding range_step_def by simp
  then obtain k where k0: "i = k * chunk_size" "k \<in> {0..<(length lines + chunk_size - 1) div chunk_size}"
    by blast
  then have k: "i = k * chunk_size" "k < (length lines + chunk_size - 1) div chunk_size"
    by simp_all
  have "k * chunk_size < length lines"
    using k(2) by (simp add: chunk_size_def)
  then have lt: "i < length lines" using k(1) by simp
  from e have ee: "e = mk_element md5_hex (''chunk_'' @ str_nat (i div chunk_size)) ''text_chunk''
                 (path_str fp) (i + 1) (min (i + chunk_size) (length lines))
                 (join ''\<newline>'' (slice lines i (i + chunk_size))) []"
    by (auto simp: chunk_at_def Let_def split: if_splits)
  have sl: "slice lines i (i + chunk_size) = slice lines i (min (i + chunk_size) (length lines))"
    by (auto simp: slice_def min_def)
  have "1 \<le> i + 1" "i + 1 \<le> min (i + chunk_size) (length lines)"
    using lt by (simp_all add: chunk_size_def)
  then show ?thesis
    unfolding ee source_text_def lines_def[symmetric] sl
    by (simp add: mk_element_def)
qed

lemma md_regions_slice:
  "(h, s, body) \<in> set (md_regions nm s0 h0 ls) \<Longrightarrow>
     s0 \<le> s \<and> body = slice ls (s - s0) (s - s0 + length body)"
proof (induction nm s0 h0 ls rule: md_regions.induct)
  case (1 nm start heading ls)
  let ?tw = "takeWhile (\<lambda>l. \<not> is_heading l) ls"
  have first: "?tw = slice ls 0 (length ?tw)"
    by (simp add: slice_def takeWhile_eq_take[symmetric])
  show ?case
  proof (cases "dropWhile (\<lambda>l. \<not> is_heading l) ls")
    case Nil
    with 1(2) have "(h, s, body) = (heading, start, ?tw)" by (simp add: md_regions_last)
    then show ?thesis using first by simp
  next
    case (Cons x rest)
    from 1(2) have "(h, s, body) = (heading, start, ?tw) \<or>
        (h, s, body) \<in> set (md_regions nm (start + length ?tw + 1) (nm x) rest)"
      by (simp add: md_regions_next[OF Cons])
    then show ?thesis
    proof
      assume "(h, s, body) = (heading, start, ?tw)"
      then show ?thesis using first by simp
    next
      assume "(h, s, body) \<in> set (md_regions nm (start + length ?tw + 1) (nm x) rest)"
      from 1(1)[OF Cons this]
      have le: "start + length ?tw + 1 \<le> s"
        and b: "body = slice rest (s - (start + length ?tw + 1)) (s - (start + length ?tw + 1) + length body)"
        by blast+
      have ls: "ls = ?tw @ x # rest" using takeWhile_dropWhile_id[of "\<lambda>l. \<not> is_heading l" ls] Cons by simp
      have "rest = drop (length ?tw + 1) ls" by (subst (2) ls) simp
      then have "body = take (length body) (drop (s - (start + length ?tw + 1)) (drop (length ?tw + 1) ls))"
        using b by (simp add: slice_def)
      also have "\<dots> = take (length body) (drop (s - start) ls)"
      proof -
        have "length ?tw + 1 + (s - (start + length ?tw + 1)) = s - start" using le by arith
        then show ?thesis by (simp only: drop_drop add.commute)
      qed
      finally show ?thesis using le by (simp add: slice_def)
    qed
  qed
qed

lemma markdown_element:
  assumes "e \<in> set (parse_markdown md5_hex fp c)"
  shows "1 \<le> start_line e \<and> start_line e \<le> end_line e \<and>
         content e = strip (source_text c (start_line e) (end_line e))"
proof -
  from assms obtain h s body where
      r: "(h, s, body) \<in> set (md_regions (\<lambda>h. strip (strip_chars ''#'' h)) 1 ''Introduction'' (split CHR ''\<newline>'' c))"
      and hc: "has_content body" and e: "e = section_element md5_hex fp (h, s, body)"
    unfolding parse_markdown_regions by auto
  from md_regions_slice[OF r] have s: "1 \<le> s"
    and b: "body = slice (split CHR ''\<newline>'' c) (s - 1) (s - 1 + length body)" by blast+
  from hc have ne: "body \<noteq> []" by (simp add: has_content_def)
  then have l: "0 < length body" by simp
  have en: "s + length body - 1 = s - 1 + length body" using s by simp
  have c: "strip (join ''\<newline>'' body) =
           strip (join ''\<newline>'' (slice (split CHR ''\<newline>'' c) (s - 1) (s + length body - 1)))"
    unfolding en using b by simp
  have le: "s \<le> s + length body - 1" using l by arith
  show ?thesis
    unfolding e section_element_def source_text_def
    using s le c by (simp add: mk_element_def)
qed

lemma visit_node_element:
  assumes "visit_node md5_hex ext lines fp nd = Inr els" and "e \<in> set els"
  shows "start_line e = fst (start_point nd) + 1 \<and> end_line e = fst (end_point nd) + 1 \<and>
         content e = join ''\<newline>'' (slice lines (fst (start_point nd)) (fst (end_point nd) + 1))"
  using assms
  by (auto simp: visit_node_def extract_python_element_def extract_js_ts_element_def Let_def mk_element_def
      split: if_splits sum.splits option.splits)

lemma traverse_element:
  "(traverse_node md5_hex ext lines fp nd = Inr els \<longrightarrow>
      (\<forall>e\<in>set els. 1 \<le> start_line e \<and>
         content e = join ''\<newline>'' (slice lines (start_line e - 1) (end_line e)) \<and>
         (rows_ordered nd \<longrightarrow> start_line e \<le> end_line e)))"
  "(traverse_children md5_hex ext lines fp ch = Inr els' \<longrightarrow>
      (\<forall>e\<in>set els'. 1 \<le> start_line e \<and>
         content e = join ''\<newline>'' (slice lines (start_line e - 1) (end_line e)) \<and>
         (list_all rows_ordered ch \<longrightarrow> start_line e \<le> end_line e)))"
proof (induction md5_hex ext lines fp nd and md5_hex ext lines fp ch arbitrary: els and els'
       rule: traverse_node_traverse_children.induct)
  case (1 md5_hex file_ext lines fp ty sp ep nc ch)
  show ?case
  proof (intro impI ballI)
    fix e assume t: "traverse_node md5_hex file_ext lines fp (Node ty sp ep nc ch) = Inr els" and e: "e \<in> set els"
    from t obtain here below where
        h: "visit_node md5_hex file_ext lines fp (Node ty sp ep nc ch) = Inr here"
        and b: "traverse_children md5_hex file_ext lines fp ch = Inr below"
        and els: "els = here @ below"
      by (auto split: sum.splits)
    from e els consider "e \<in> set here" | "e \<in> set below" by auto
    then show "1 \<le> start_line e \<and>
         content e = join ''\<newline>'' (slice lines (start_line e - 1) (end_line e)) \<and>
         (rows_ordered (Node ty sp ep nc ch) \<longrightarrow> start_line e \<le> end_line e)"
    proof cases
      case 1
      from visit_node_element[OF h 1] show ?thesis by simp
    next
      case 2
      from "1.IH"[OF h, of below] b 2 show ?thesis by simp
    qed
  qed
next
  case (2 md5_hex file_ext lines fp)
  show ?case by simp
next
  case (3 md5_hex file_ext lines fp c cs)
  show ?case
  proof (intro impI ballI)
    fix e assume t: "traverse_children md5_hex file_ext lines fp (c # cs) = Inr els'" and e: "e \<in> set els'"
    from t obtain first others where
        f: "traverse_node md5_hex file_ext lines fp c = Inr first"
        and o: "traverse_children md5_hex file_ext lines fp cs = Inr others"
        and els: "els' = first @ others"
      by (auto split: sum.splits)
    from e els consider "e \<in> set first" | "e \<in> set others" by auto
    then show "1 \<le> start_line e \<and>
         content e = join ''\<newline>'' (slice lines (start_line e - 1) (end_line e)) \<and>
         (list_all rows_ordered (c # cs) \<longrightarrow> start_line e \<le> end_line e)"
    proof cases
      case 1
      from "3.IH"(1)[of first] f 1 show ?thesis by simp
    next
      case 2
      from "3.IH"(2)[OF f, of others] o 2 show ?thesis by simp
    qed
  qed
qed

text \<open>
  Claim C6, as amended. For every element of the chunk parser and of the grammar parser,
  \<open>content\<close> is the exact source text of the lines \<open>start_line\<close> to \<open>end_line\<close>
  (whole lines, joined by newlines); for every element of the markdown parser,
  \<open>content\<close> is that text with its leading and trailing whitespace stripped.
\<close>

theorem element_content_source_text:
  "(\<forall>e\<in>set (simple_text_chunks md5_hex fp c).
       content e = source_text c (start_line e) (end_line e))
   \<and> (\<forall>e\<in>set (parse_markdown md5_hex fp c).
       content e = strip (source_text c (start_line e) (end_line e)))
   \<and> (parse_with_tree_sitter md5_hex parse fp c ext = Inr els \<longrightarrow>
       (\<forall>e\<in>set els. content e = source_text c (start_line e) (end_line e)))"
proof (intro conjI ballI impI)
  fix e assume "e \<in> set (simple_text_chunks md5_hex fp c)"
  then show "content e = source_text c (start_line e) (end_line e)"
    using chunk_element by blast
next
  fix e assume "e \<in> set (parse_markdown md5_hex fp c)"
  then show "content e = strip (source_text c (start_line e) (end_line e))"
    using markdown_element by blast
next
  fix e assume "parse_with_tree_sitter md5_hex parse fp c ext = Inr els" and "e \<in> set els"
  then show "content e = source_text c (start_line e) (end_line e)"
    using traverse_element(1)[of md5_hex ext "split CHR ''\<newline>'' c" fp "parse ext c" els]
    by (simp add: parse_with_tree_sitter_def source_text_def)
qed

text \<open>One file for each parser; each emits elements, and they satisfy the statement.\<close>

theorem element_content_source_text_witness:
  "map name (simple_text_chunks (\<lambda>s. s) [''x.jsx''] ''a\<newline>b'') = [''chunk_0'']
   \<and> list_all (\<lambda>e. content e = source_text ''a\<newline>b'' (start_line e) (end_line e))
        (simple_text_chunks (\<lambda>s. s) [''x.jsx''] ''a\<newline>b'')
   \<and> map name (parse_markdown (\<lambda>s. s) [''doc.md''] ''# A\<newline>\<newline>body'') = [''A'']
   \<and> list_all (\<lambda>e. content e = strip (source_text ''# A\<newline>\<newline>body'' (start_line e) (end_line e)))
        (parse_markdown (\<lambda>s. s) [''doc.md''] ''# A\<newline>\<newline>body'')
   \<and> map name (projr (parse_with_tree_sitter (\<lambda>s. s) (\<lambda>_ _. example_js_tree) [''m.js'']
                         ''import a from b\<newline>function f(){}'' ''.js'')) = [''import'', ''f'']
   \<and> list_all (\<lambda>e. content e = source_text ''import a from b\<newline>function f(){}'' (start_line e) (end_line e))
        (projr (parse_with_tree_sitter (\<lambda>s. s) (\<lambda>_ _. example_js_tree) [''m.js'']
                  ''import a from b\<newline>function f(){}'' ''.js''))"
proof -
  have n1: "map name (simple_text_chunks (\<lambda>s. s) [''x.jsx''] ''a\<newline>b'') = [''chunk_0'']"
    by code_simp
  have n2: "map name (parse_markdown (\<lambda>s. s) [''doc.md''] ''# A\<newline>\<newline>body'') = [''A'']"
    by code_simp
  have p: "parse_with_tree_sitter (\<lambda>s. s) (\<lambda>_ _. example_js_tree) [''m.js'']
             ''import a from b\<newline>function f(){}'' ''.js''
           = Inr (projr (parse_with_tree_sitter (\<lambda>s. s) (\<lambda>_ _. example_js_tree) [''m.js'']
                          ''import a from b\<newline>function f(){}'' ''.js''))"
    by code_simp
  have n3: "map name (projr (parse_with_tree_sitter (\<lambda>s. s) (\<lambda>_ _. example_js_tree) [''m.js'']
                         ''import a from b\<newline>function f(){}'' ''.js'')) = [''import'', ''f'']"
    by code_simp
  show ?thesis
    using n1 n2 n3
      element_content_source_text[of "\<lambda>s. s" "[''x.jsx'']" "''a\<newline>b''"]
      element_content_source_text[of "\<lambda>s. s" "[''doc.md'']" "''# A\<newline>\<newline>body''"]
      element_content_source_text[of "\<lambda>s. s" "[''m.js'']" "''import a from b\<newline>function f(){}''"
         "\<lambda>_ _. example_js_tree" "''.js''"] p
    unfolding list_all_iff by blast
qed

text \<open>
  Claim C6 as written fails for the markdown parser: the section under \<open># A\<close> spans the
  lines 2 to 3, whose text starts with an empty line, and its content is only \<open>body\<close>.
\<close>

theorem markdown_content_counterexample:
  "map (\<lambda>e. (start_line e, end_line e, content e))
     (parse_markdown (\<lambda>s. s) [''doc.md''] ''# A\<newline>\<newline>body'') = [(2, 3, ''body'')]
   \<and> source_text ''# A\<newline>\<newline>body'' 2 3 = ''\<newline>body''"
  by code_simp

text \<open>
  Claim C9. Every element of the chunk parser and of the markdown parser, on any content,
  has \<open>1 \<le> start_line \<le> end_line\<close>; so has every element of the grammar parser, whose
  line numbers are the rows of a node plus one, on a tree where no node ends on a row
  before the one it starts on.
\<close>

theorem element_line_bounds:
  "(\<forall>e\<in>set (simple_text_chunks md5_hex fp c). 1 \<le> start_line e \<and> start_line e \<le> end_line e)
   \<and> (\<forall>e\<in>set (parse_markdown md5_hex fp c). 1 \<le> start_line e \<and> start_line e \<le> end_line e)
   \<and> (rows_ordered (parse ext c) \<longrightarrow> parse_with_tree_sitter md5_hex parse fp c ext = Inr els \<longrightarrow>
       (\<forall>e\<in>set els. 1 \<le> start_line e \<and> start_line e \<le> end_line e))"
proof (intro conjI ballI impI)
  fix e assume "e \<in> set (simple_text_chunks md5_hex fp c)"
  then show "1 \<le> start_line e" "start_line e \<le> end_line e"
    using chunk_element by blast+
next
  fix e assume "e \<in> set (parse_markdown md5_hex fp c)"
  then show "1 \<le> start_line e" "start_line e \<le> end_line e"
    using markdown_element by blast+
next
  fix e assume "rows_ordered (parse ext c)"
    and "parse_with_tree_sitter md5_hex parse fp c ext = Inr els" and "e \<in> set els"
  then show "1 \<le> start_line e" "start_line e \<le> end_line e"
    using traverse_element(1)[of md5_hex ext "split CHR ''\<newline>'' c" fp "parse ext c" els]
    by (simp_all add: parse_with_tree_sitter_def)
qed

text \<open>One file for each parser, with the line ranges of the elements emitted.\<close>

theorem element_line_bounds_witness:
  "map (\<lambda>e. (start_line e, end_line e)) (simple_text_chunks (\<lambda>s. s) [''x.jsx''] ''a\<newline>b'') = [(1, 2)]
   \<and> list_all (\<lambda>e. 1 \<le> start_line e \<and> start_line e \<le> end_line e)
        (simple_text_chunks (\<lambda>s. s) [''x.jsx''] ''a\<newline>b'')
   \<and> map (\<lambda>e. (start_line e, end_line e)) (parse_markdown (\<lambda>s. s) [''doc.md''] ''# A\<newline>\<newline>body'') = [(2, 3)]
   \<and> list_all (\<lambda>e. 1 \<le> start_line e \<and> start_line e \<le> end_line e)
        (parse_markdown (\<lambda>s. s) [''doc.md''] ''# A\<newline>\<newline>body'')
   \<and> rows_ordered example_js_tree
   \<and> map (\<lambda>e. (start_line e, end_line e))
        (projr (parse_with_tree_sitter (\<lambda>s. s) (\<lambda>_ _. example_js_tree) [''m.js'']
                  ''import a from b\<newline>function f(){}'' ''.js'')) = [(1, 1), (2, 2)]
   \<and> list_all (\<lambda>e. 1 \<le> start_line e \<and> start_line e \<le> end_line e)
        (projr (parse_with_tree_sitter (\<lambda>s. s) (\<lambda>_ _. example_js_tree) [''m.js'']
                  ''import a from b\<newline>function f(){}'' ''.js''))"
proof -
  have n1: "map (\<lambda>e. (start_line e, end_line e)) (simple_text_chunks (\<lambda>s. s) [''x.jsx''] ''a\<newline>b'') = [(1, 2)]"
    by code_simp
  have n2: "map (\<lambda>e. (start_line e, end_line e)) (parse_markdown (\<lambda>s. s) [''doc.md''] ''# A\<newline>\<newline>body'') = [(2, 3)]"
    by code_simp
  have ro: "rows_ordered example_js_tree" by code_simp
  have p: "parse_with_tree_sitter (\<lambda>s. s) (\<lambda>_ _. example_js_tree) [''m.js'']
             ''import a from b\<newline>function f(){}'' ''.js''
           = Inr (projr (parse_with_tree_sitter (\<lambda>s. s) (\<lambda>_ _. example_js_tree) [''m.js'']
                          ''import a from b\<newline>function f(){}'' ''.js''))"
    by code_simp
  have n3: "map (\<lambda>e. (start_line e, end_line e))
        (projr (parse_with_tree_sitter (\<lambda>s. s) (\<lambda>_ _. example_js_tree) [''m.js'']
                  ''import a from b\<newline>function f(){}'' ''.js'')) = [(1, 1), (2, 2)]"
    by code_simp
  show ?thesis
    using n1 n2 n3 ro
      element_line_bounds[of "\<lambda>s. s" "[''x.jsx'']" "''a\<newline>b''"]
      element_line_bounds[of "\<lambda>s. s" "[''doc.md'']" "''# A\<newline>\<newline>body''"]
      element_line_bounds[of "\<lambda>s. s" "[''m.js'']" "''import a from b\<newline>function f(){}''"
         "\<lambda>_ _. example_js_tree" "''.js''"] p
    unfolding list_all_iff by blast
qed

section \<open>Properties of the index builder\<close>

lemma fold_update_add:
  "fold (\<lambda>(i, e) m. m(i \<mapsto> e)) batch col = col ++ map_of (rev batch)"
proof (induction batch arbitrary: col)
  case Nil then show ?case by simp
next
  case (Cons b batch)
  obtain i e where b: "b = (i, e)" by (cases b)
  have "fold (\<lambda>(i, e) m. m(i \<mapsto> e)) (b # batch) col =
        fold (\<lambda>(i, e) m. m(i \<mapsto> e)) batch (col(i \<mapsto> e))"
    unfolding b by simp
  also have "\<dots> = col(i \<mapsto> e) ++ map_of (rev batch)" by (rule Cons.IH)
  also have "\<dots> = col ++ ([i \<mapsto> e] ++ map_of (rev batch))"
    by (rule ext) (simp add: map_add_def split: option.splits)
  also have "\<dots> = col ++ map_of (rev (b # batch))" unfolding b by simp
  finally show ?case .
qed

lemma upsert_add:
  "upsert col batch =
     (if distinct (map fst batch) then Inr (col ++ map_of (rev batch)) else Inl DuplicateIDError)"
  by (simp add: upsert_def fold_update_add)

lemma overlay_empty: "overlay empty_store d = d"
  by (simp add: overlay_def empty_store_def)

lemma overlay_assoc: "overlay (overlay st d1) d2 = overlay st (overlay d1 d2)"
  by (simp add: overlay_def)

lemma map_add_twice: "(m ++ f) ++ f = m ++ (f :: 'a \<rightharpoonup> 'b)"
  by (rule ext) (simp add: map_add_def split: option.splits)

lemma overlay_idem: "overlay (overlay st d) d = overlay st d"
  by (simp add: overlay_def map_add_twice)

lemma store_file_summary_overlay:
  "store_file_summary env summary st =
     (fst (store_file_summary env summary empty_store),
      overlay st (snd (store_file_summary env summary empty_store)))"
  by (cases st) (simp add: store_file_summary_def overlay_def empty_store_def upsert_add
      split: option.splits pyval.splits)

lemma store_elements_overlay:
  "store_elements env elems st =
     (fst (store_elements env elems empty_store),
      overlay st (snd (store_elements env elems empty_store)))"
  by (cases st) (simp add: store_elements_def overlay_def empty_store_def upsert_add)

lemma index_file_overlay:
  "index_file env root f st =
     (fst (index_file env root f empty_store), overlay st (snd (index_file env root f empty_store)))"
proof -
  have e: "overlay st empty_store = st" by (cases st) (simp add: overlay_def empty_store_def)
  show ?thesis
    unfolding index_file_def
    by (subst store_file_summary_overlay)
       (auto simp: e overlay_empty split: option.splits sum.splits prod.splits
          simp: store_file_summary_overlay[of _ _ empty_store, symmetric])
qed

lemma relative_to_under: "relative_to (root @ rel) root = Inr rel"
  by (simp add: relative_to_def)

lemma index_loop_overlay:
  "index_loop env root fs indexed elems st =
     (fst (index_loop env root fs indexed elems empty_store),
      overlay st (snd (index_loop env root fs indexed elems empty_store)))"
proof (induction fs arbitrary: indexed elems st)
  case Nil
  show ?case by (cases st) (simp add: overlay_def empty_store_def)
next
  case (Cons f fs)
  obtain r d where rd: "index_file env root f empty_store = (r, d)" by (cases "index_file env root f empty_store")
  have here: "index_file env root f st = (r, overlay st d)"
    using index_file_overlay[of env root f st] rd by simp
  show ?case
  proof (cases r)
    case (Inl e)
    then show ?thesis using here rd by simp
  next
    case (Inr result)
    show ?thesis
    proof (cases "relative_to (fst f) root")
      case (Inl e)
      then show ?thesis using here rd Inr by simp
    next
      case rel: (Inr rel)
      have 1: "index_loop env root (f # fs) indexed elems st =
               index_loop env root fs (indexed @ [path_str rel]) (elems @ fst result) (overlay st d)"
        using here Inr rel by simp
      have 2: "index_loop env root (f # fs) indexed elems empty_store =
               index_loop env root fs (indexed @ [path_str rel]) (elems @ fst result) d"
        using rd Inr rel by simp
      show ?thesis
        unfolding 1 2
        by (subst Cons.IH, subst (2 3) Cons.IH) (simp add: overlay_assoc)
    qed
  qed
qed

lemma index_codebase_overlay:
  "index_codebase env root tree st =
     (fst (index_codebase env root tree empty_store),
      overlay st (snd (index_codebase env root tree empty_store)))"
proof -
  obtain r d where rd: "index_loop env root (code_files env root tree) [] [] empty_store = (r, d)"
    by (cases "index_loop env root (code_files env root tree) [] [] empty_store")
  have here: "index_loop env root (code_files env root tree) [] [] st = (r, overlay st d)"
    using index_loop_overlay[of env root "code_files env root tree" "[]" "[]" st] rd by simp
  show ?thesis
  proof (cases r)
    case (Inl e)
    then show ?thesis using here rd by (simp add: index_codebase_def)
  next
    case (Inr p)
    obtain indexed elems where p: "p = (indexed, elems)" by (cases p)
    have "store_elements env elems (overlay st d) =
            (fst (store_elements env elems d), overlay st (snd (store_elements env elems d)))"
      by (subst store_elements_overlay, subst (2 3) store_elements_overlay) (simp add: overlay_assoc)
    then show ?thesis using here rd Inr p
      by (simp add: index_codebase_def split: prod.splits sum.splits)
  qed
qed

text \<open>
  Two runs that iterate sets in the same order: the second run, started from the store
  the first run left, gives the same result and leaves both collections as they were;
  and the result of a run does not depend on the store it starts from.
\<close>

lemma index_codebase_same_order:
  "index_codebase env root tree (snd (index_codebase env root tree st)) =
     index_codebase env root tree st
   \<and> fst (index_codebase env root tree st) = fst (index_codebase env root tree st')"
proof
  show "index_codebase env root tree (snd (index_codebase env root tree st)) =
     index_codebase env root tree st"
    by (subst index_codebase_overlay, subst (3) index_codebase_overlay, subst (2) index_codebase_overlay)
       (simp add: overlay_idem)
  show "fst (index_codebase env root tree st) = fst (index_codebase env root tree st')"
    by (subst index_codebase_overlay, subst (2) index_codebase_overlay) simp
qed

text \<open>
  Claim C2 fails on the code. The project \<open>/proj\<close> holds the unchanged file \<open>m.py\<close> with an
  import and a class. It is indexed by one process and then, from the store that run
  left, by a second process that iterates the set of element types in the other order.
  Both runs report two elements, but the second overwrites the metadata stored under
  the id \<open>m.py\<close>: \<open>elements_by_type_str\<close> was \<open>import: 1, class: 1\<close> and becomes
  \<open>class: 1, import: 1\<close>.
\<close>

theorem reindex_changes_summary_metadata:
  "fst (index_codebase first_process_env [''/'', ''proj'']
          [([''m.py''], Some ''import os\<newline>class C: pass'')] empty_store)
     = Inr \<lparr>indexed_files = [''m.py''], total_elements = 2, errors = []\<rparr>
   \<and> map_option (\<lambda>e. map_of (metadata e) ''elements_by_type_str'')
        (file_collection
           (snd (index_codebase first_process_env [''/'', ''proj'']
                   [([''m.py''], Some ''import os\<newline>class C: pass'')] empty_store)) ''m.py'')
     = Some (Some (PStr ''import: 1, class: 1''))
   \<and> fst (index_codebase second_process_env [''/'', ''proj'']
            [([''m.py''], Some ''import os\<newline>class C: pass'')]
            (snd (index_codebase first_process_env [''/'', ''proj'']
                    [([''m.py''], Some ''import os\<newline>class C: pass'')] empty_store)))
     = Inr \<lparr>indexed_files = [''m.py''], total_elements = 2, errors = []\<rparr>
   \<and> map_option (\<lambda>e. map_of (metadata e) ''elements_by_type_str'')
        (file_collection
           (snd (index_codebase second_process_env [''/'', ''proj'']
                   [([''m.py''], Some ''import os\<newline>class C: pass'')]
                   (snd (index_codebase first_process_env [''/'', ''proj'']
                           [([''m.py''], Some ''import os\<newline>class C: pass'')] empty_store)))) ''m.py'')
     = Some (Some (PStr ''class: 1, import: 1''))"
  by code_simp

text \<open>
  Claim C1 fails on the code: \<open>index_codebase\<close> has no handler around \<open>_index_file\<close>.
  With a root holding \<open>docs.md\<close>, which cannot be read, and the readable \<open>b.md\<close>, the run
  raises \<open>OSError\<close> and returns no report; and a report that is returned always has an
  empty \<open>errors\<close> list.
\<close>

theorem index_codebase_read_failure_aborts:
  "fst (index_codebase example_env [''/'', ''proj'']
          [([''docs.md''], None), ([''b.md''], Some ''# B\<newline>x'')] empty_store) = Inl OSError
   \<and> (case fst (index_codebase env root tree st) of Inl e \<Rightarrow> True | Inr r \<Rightarrow> errors r = [])"
proof
  show "fst (index_codebase example_env [''/'', ''proj'']
          [([''docs.md''], None), ([''b.md''], Some ''# B\<newline>x'')] empty_store) = Inl OSError"
    by code_simp
  show "case fst (index_codebase env root tree st) of Inl e \<Rightarrow> True | Inr r \<Rightarrow> errors r = []"
    by (simp add: index_codebase_def split: prod.splits sum.splits)
qed

text \<open>
  Claim C3 fails on the code: an element carries \<open>str(file_path)\<close>, the path that starts
  with the project root, while the file summary carries the path relative to the root.
  For the root \<open>/proj\<close> and its file \<open>a.md\<close>:
\<close>

theorem element_file_path_keeps_root:
  "(case fst (index_file example_env [''/'', ''proj'']
               ([''/'', ''proj'', ''a.md''], Some ''# A\<newline>body'') empty_store) of
      Inl e \<Rightarrow> False
    | Inr (elems, summary) \<Rightarrow>
        map file_path elems = [''/proj/a.md''] \<and>
        map_of summary ''file_path'' = Some (PStr ''a.md''))"
  by code_simp

section \<open>Properties of the search tool\<close>

text \<open>
  With a library that raises \<open>ValueError\<close> for a collection that does not exist: while
  the client lacks the collection \<open>code_elements\<close> or the collection \<open>file_summaries\<close>,
  the constructor leaves both attributes \<open>None\<close>, and each of the four search operations,
  as well as each tool function built on them, returns its not-indexed sentence.
\<close>

lemma not_indexed_sentinel_value_error:
  assumes "s_missing env = ValueError"
    and "cl ''code_elements'' = None \<or> cl ''file_summaries'' = None"
  shows "VectorSearchTool_init env cl = Inr \<lparr>vs_code_collection = None, vs_file_collection = None\<rparr>"
    and "search_code_tool env cl q k et = Inr ''No code index found. Please run indexing first.''"
    and "search_files_tool env cl q k = Inr ''No file index found. Please run indexing first.''"
    and "get_file_context_tool env cl p k = Inr ''No code index found. Please run indexing first.''"
proof -
  show i: "VectorSearchTool_init env cl = Inr \<lparr>vs_code_collection = None, vs_file_collection = None\<rparr>"
    using assms by (auto simp: VectorSearchTool_init_def get_collection_def split: option.splits)
  show "search_code_tool env cl q k et = Inr ''No code index found. Please run indexing first.''"
    by (simp add: i search_code_tool_def semantic_search_def)
  show "search_files_tool env cl q k = Inr ''No file index found. Please run indexing first.''"
    by (simp add: i search_files_tool_def find_files_by_content_def)
  show "get_file_context_tool env cl p k = Inr ''No code index found. Please run indexing first.''"
    by (simp add: i get_file_context_tool_def get_file_structure_def)
qed

text \<open>
  Claim C7 fails on the code. \<open>VectorSearchTool.__init__\<close> catches \<open>ValueError\<close> only. With
  a library that raises \<open>NotFoundError\<close> for a collection that does not exist, and a client
  without any collection, the constructor raises, and so does each of the three tool
  functions: no not-indexed sentence is returned.
\<close>

theorem not_indexed_constructor_raises:
  "VectorSearchTool_init (env\<lparr>s_missing := NotFoundError\<rparr>) Map.empty = Inl NotFoundError
   \<and> search_code_tool (env\<lparr>s_missing := NotFoundError\<rparr>) Map.empty q k et = Inl NotFoundError
   \<and> search_files_tool (env\<lparr>s_missing := NotFoundError\<rparr>) Map.empty q k = Inl NotFoundError
   \<and> get_file_context_tool (env\<lparr>s_missing := NotFoundError\<rparr>) Map.empty p k = Inl NotFoundError"
proof -
  have i: "VectorSearchTool_init (env\<lparr>s_missing := NotFoundError\<rparr>) Map.empty = Inl NotFoundError"
    by (simp add: VectorSearchTool_init_def get_collection_def)
  show ?thesis
    by (simp add: i search_code_tool_def search_files_tool_def get_file_context_tool_def)
qed

lemma enumerate_zip3:
  assumes "length dl = length ml" "length ml = length sl"
  shows "enumerate 0 (zip dl (zip ml sl)) = map (\<lambda>i. (i, dl ! i, ml ! i, sl ! i)) [0..<length ml]"
  using assms by (intro nth_equalityI) (simp_all add: nth_enumerate_eq)

lemma dict_rows_enumerate:
  assumes "length dl = length ml" "length ml = length sl"
  shows "concat (map (\<lambda>(i, doc, m, d). case m of NotDict \<Rightarrow> [] | Dict md \<Rightarrow> [(i, md, d)])
                   (enumerate 0 (zip dl (zip ml sl)))) = dict_rows ml sl"
  unfolding dict_rows_def enumerate_zip3[OF assms] map_map
  by (intro arg_cong[where f=concat] map_cong refl) (simp split: row_meta.splits)

lemma format_rows_texts:
  assumes "list_all (\<lambda>(i, md, d). \<not> isl (fmt i md d))
             (concat (map (\<lambda>(i, doc, m, d). case m of NotDict \<Rightarrow> [] | Dict md \<Rightarrow> [(i, md, d)]) rows))"
  shows "format_rows fmt rows =
           Inr (map (\<lambda>(i, md, d). projr (fmt i md d))
                  (concat (map (\<lambda>(i, doc, m, d). case m of NotDict \<Rightarrow> [] | Dict md \<Rightarrow> [(i, md, d)]) rows)))"
  using assms
proof (induction rows)
  case Nil
  show ?case by simp
next
  case (Cons r rows)
  obtain i doc m d where r: "r = (i, doc, m, d)" by (cases r)
  show ?case
  proof (cases m)
    case NotDict
    then show ?thesis using Cons r by simp
  next
    case (Dict md)
    from Cons.prems r Dict have ok: "\<not> isl (fmt i md d)" by simp
    then obtain s where t: "fmt i md d = Inr s" by (cases "fmt i md d") auto
    from Cons r Dict have
      "format_rows fmt rows =
         Inr (map (\<lambda>(i, md, d). projr (fmt i md d))
                (concat (map (\<lambda>(i, doc, m, d). case m of NotDict \<Rightarrow> [] | Dict md \<Rightarrow> [(i, md, d)]) rows)))"
      by simp
    then show ?thesis using r Dict t by simp
  qed
qed

lemma first_list_ne:
  "first_list x \<noteq> [] \<Longrightarrow> \<exists>l ls. x = Some (l # ls) \<and> first_list x = l"
  by (auto simp: first_list_def split: option.splits list.splits)

lemma first_list_empty:
  "first_list x = [] \<Longrightarrow> x = None \<or> x = Some [] \<or> (\<exists>ls. x = Some ([] # ls))"
  by (auto simp: first_list_def split: option.splits list.splits)

text \<open>
  Claim C8, as amended. Of each of the three arrays of a query result, take the first
  list, empty when the array is missing or holds no list. When one of the three lists
  is empty, \<open>semantic_search\<close> returns the no-results message. When none is empty and
  their lengths differ, it returns the inconsistency message. When none is empty and
  the lengths agree, every row whose metadata is not a dictionary is left out, and the
  rows that are dictionaries are formatted, in order and numbered by their position,
  and returned joined by newlines, as long as the distance of each of them can be
  formatted as a number. On a result the query returned, the call returns what this
  processing gives.
\<close>

theorem semantic_search_result_rows:
  "(first_list (documents res) = [] \<or> first_list (metadatas res) = [] \<or>
      first_list (distances res) = [] \<longrightarrow>
      semantic_search_results env q res = Inr (''No results found for query: '' @ quoted q))
   \<and> (first_list (documents res) \<noteq> [] \<and> first_list (metadatas res) \<noteq> [] \<and>
      first_list (distances res) \<noteq> [] \<and>
      \<not> (length (first_list (documents res)) = length (first_list (metadatas res)) \<and>
         length (first_list (metadatas res)) = length (first_list (distances res))) \<longrightarrow>
      semantic_search_results env q res = Inr (''Inconsistent result data for query: '' @ quoted q))
   \<and> (first_list (documents res) \<noteq> [] \<and>
      length (first_list (documents res)) = length (first_list (metadatas res)) \<and>
      length (first_list (metadatas res)) = length (first_list (distances res)) \<and>
      list_all (\<lambda>(i, md, d). \<not> isl (s_similarity env d))
        (dict_rows (first_list (metadatas res)) (first_list (distances res))) \<longrightarrow>
      semantic_search_results env q res =
        Inr (join ''\<newline>''
               (map (\<lambda>(i, md, d). result_text i md (projr (s_similarity env d)))
                  (dict_rows (first_list (metadatas res)) (first_list (distances res))))))
   \<and> (vs_code_collection tool = Some col \<longrightarrow>
      s_query env col (s_encode env q) k (where_filter f) = Inr res \<longrightarrow>
      semantic_search env tool q k f = semantic_search_results env q res)"
proof (intro conjI impI)
  assume "first_list (documents res) = [] \<or> first_list (metadatas res) = [] \<or>
      first_list (distances res) = []"
  then show "semantic_search_results env q res = Inr (''No results found for query: '' @ quoted q)"
    using first_list_empty[of "documents res"] first_list_empty[of "metadatas res"]
      first_list_empty[of "distances res"]
    by (auto simp: semantic_search_results_def split: option.splits list.splits)
next
  assume a: "first_list (documents res) \<noteq> [] \<and> first_list (metadatas res) \<noteq> [] \<and>
      first_list (distances res) \<noteq> [] \<and>
      \<not> (length (first_list (documents res)) = length (first_list (metadatas res)) \<and>
         length (first_list (metadatas res)) = length (first_list (distances res)))"
  then obtain dl ds ml ms sl xs where
    r: "documents res = Some (dl # ds)" "metadatas res = Some (ml # ms)"
       "distances res = Some (sl # xs)"
    and f: "first_list (documents res) = dl" "first_list (metadatas res) = ml"
       "first_list (distances res) = sl"
    using first_list_ne[of "documents res"] first_list_ne[of "metadatas res"]
      first_list_ne[of "distances res"] by auto
  from a have "dl \<noteq> []" "ml \<noteq> []" "sl \<noteq> []"
    "\<not> (length dl = length ml \<and> length ml = length sl)"
    unfolding f by simp_all
  then show "semantic_search_results env q res =
               Inr (''Inconsistent result data for query: '' @ quoted q)"
    unfolding semantic_search_results_def r by simp
next
  assume a: "first_list (documents res) \<noteq> [] \<and>
      length (first_list (documents res)) = length (first_list (metadatas res)) \<and>
      length (first_list (metadatas res)) = length (first_list (distances res)) \<and>
      list_all (\<lambda>(i, md, d). \<not> isl (s_similarity env d))
        (dict_rows (first_list (metadatas res)) (first_list (distances res)))"
  let ?dl = "first_list (documents res)" and ?ml = "first_list (metadatas res)"
    and ?sl = "first_list (distances res)"
  from a have ne: "?dl \<noteq> []" "?ml \<noteq> []" "?sl \<noteq> []" by auto
  then obtain dl ds ml ms sl xs where
    r: "documents res = Some (dl # ds)" "metadatas res = Some (ml # ms)"
       "distances res = Some (sl # xs)"
    and f: "?dl = dl" "?ml = ml" "?sl = sl"
    using first_list_ne[of "documents res"] first_list_ne[of "metadatas res"]
      first_list_ne[of "distances res"] by auto
  have len: "length ?dl = length ?ml" "length ?ml = length ?sl" using a by auto
  have fmt: "\<not> isl (format_result env i md d) \<longleftrightarrow> \<not> isl (s_similarity env d)" for i md d
    by (simp add: format_result_def split: sum.splits)
  have pr: "\<not> isl (s_similarity env d) \<Longrightarrow>
              projr (format_result env i md d) = result_text i md (projr (s_similarity env d))" for i md d
    by (cases "s_similarity env d") (simp_all add: format_result_def)
  have ok: "list_all (\<lambda>(i, md, d). \<not> isl (format_result env i md d)) (dict_rows ?ml ?sl)"
    using a by (simp add: fmt)
  have "format_results env ?dl ?ml ?sl =
          Inr (map (\<lambda>(i, md, d). projr (format_result env i md d)) (dict_rows ?ml ?sl))"
    unfolding format_results_def
    using format_rows_texts[of "format_result env" "enumerate 0 (zip ?dl (zip ?ml ?sl))"] ok
    by (simp add: dict_rows_enumerate[OF len])
  also have "map (\<lambda>(i, md, d). projr (format_result env i md d)) (dict_rows ?ml ?sl) =
             map (\<lambda>(i, md, d). result_text i md (projr (s_similarity env d))) (dict_rows ?ml ?sl)"
    using a by (intro map_cong refl) (auto simp: list_all_iff pr)
  finally have fr: "format_results env ?dl ?ml ?sl =
          Inr (map (\<lambda>(i, md, d). result_text i md (projr (s_similarity env d))) (dict_rows ?ml ?sl))" .
  show "semantic_search_results env q res =
        Inr (join ''\<newline>''
               (map (\<lambda>(i, md, d). result_text i md (projr (s_similarity env d))) (dict_rows ?ml ?sl)))"
    unfolding f semantic_search_results_def
    unfolding r
    using ne[unfolded f] len[unfolded f] by (simp add: fr[unfolded f])
next
  assume "vs_code_collection tool = Some col"
    and "s_query env col (s_encode env q) k (where_filter f) = Inr res"
  then show "semantic_search env tool q k f = semantic_search_results env q res"
    by (simp add: semantic_search_def)
qed

text \<open>
  Two rows of which the first is not a dictionary: only the second is formatted, as
  result 2. Lists of lengths 2, 1 and 2 give the inconsistency message, and a result
  without the array of metadata gives the no-results message.
\<close>

theorem semantic_search_result_rows_witness:
  "semantic_search (example_search_env ValueError example_rows)
      \<lparr>vs_code_collection = Some Map.empty, vs_file_collection = Some Map.empty\<rparr> ''foo'' 5 None
    = Inr (result_text 1 [(''name'', PStr ''foo''), (''start_line'', PInt 3)] ''0'')
   \<and> semantic_search_results (example_search_env ValueError example_rows) ''foo''
        \<lparr>documents = Some [[''d1'', ''d2'']], metadatas = Some [[NotDict]],
         distances = Some [[Some 0, Some 1]]\<rparr>
      = Inr (''Inconsistent result data for query: '' @ quoted ''foo'')
   \<and> semantic_search_results (example_search_env ValueError example_rows) ''foo''
        \<lparr>documents = Some [[''d1'']], metadatas = None, distances = Some [[Some 0]]\<rparr>
      = Inr (''No results found for query: '' @ quoted ''foo'')"
proof -
  let ?E = "example_search_env ValueError example_rows"
  let ?T = "\<lparr>vs_code_collection = Some Map.empty, vs_file_collection = Some Map.empty\<rparr> :: string VectorSearchTool"
  have fl: "first_list (documents example_rows) = [''d1'', ''d2'']"
    "first_list (metadatas example_rows) = [NotDict, Dict [(''name'', PStr ''foo''), (''start_line'', PInt 3)]]"
    "first_list (distances example_rows) = [Some 0, Some 1]"
    by (simp_all add: example_rows_def first_list_def)
  have r: "dict_rows [NotDict, Dict [(''name'', PStr ''foo''), (''start_line'', PInt 3)]] [Some 0, Some (1 :: int)]
           = [(1, [(''name'', PStr ''foo''), (''start_line'', PInt 3)], Some 1)]"
    by code_simp
  have sim: "s_similarity ?E (Some 1) = Inr ''0''"
    unfolding example_search_env_def by code_simp
  have q: "s_query ?E Map.empty (s_encode ?E ''foo'') 5 (where_filter None) = Inr example_rows"
    by (simp add: example_search_env_def)
  note th1 = semantic_search_result_rows[where res = example_rows and env = ?E and q = "''foo''"
      and tool = ?T and col = Map.empty and k = 5 and f = None]
  have 1: "semantic_search_results ?E ''foo'' example_rows
           = Inr (result_text 1 [(''name'', PStr ''foo''), (''start_line'', PInt 3)] ''0'')"
    using th1[THEN conjunct2, THEN conjunct2, THEN conjunct1]
    by (simp add: fl r sim)
  have 2: "semantic_search ?E ?T ''foo'' 5 None = semantic_search_results ?E ''foo'' example_rows"
    using th1[THEN conjunct2, THEN conjunct2, THEN conjunct2] q by simp
  have 3: "semantic_search_results ?E ''foo''
        \<lparr>documents = Some [[''d1'', ''d2'']], metadatas = Some [[NotDict]],
         distances = Some [[Some 0, Some 1]]\<rparr>
      = Inr (''Inconsistent result data for query: '' @ quoted ''foo'')"
    using semantic_search_result_rows[where env = ?E and q = "''foo''"
        and res = "\<lparr>documents = Some [[''d1'', ''d2'']], metadatas = Some [[NotDict]],
                    distances = Some [[Some 0, Some 1]]\<rparr>", THEN conjunct2, THEN conjunct1]
    by (simp add: first_list_def)
  have 4: "semantic_search_results ?E ''foo''
        \<lparr>documents = Some [[''d1'']], metadatas = None, distances = Some [[Some 0]]\<rparr>
      = Inr (''No results found for query: '' @ quoted ''foo'')"
    using semantic_search_result_rows[where env = ?E and q = "''foo''"
        and res = "\<lparr>documents = Some [[''d1'']], metadatas = None, distances = Some [[Some 0]]\<rparr>",
        THEN conjunct1]
    by (simp add: first_list_def)
  show ?thesis using 1 2 3 4 by simp
qed

text \<open>
  Claim C8 as written fails: for lists of lengths 1, 0 and 1 the emptiness test comes
  first, and the call returns the no-results message, not the inconsistency message;
  and a dictionary row whose distance is not a number makes the call raise
  \<open>TypeError\<close>, since \<open>semantic_search\<close> has no handler.
\<close>

theorem semantic_search_lengths_counterexample:
  "semantic_search_results (example_search_env ValueError example_rows) ''foo''
     \<lparr>documents = Some [[''d1'']], metadatas = Some [[]], distances = Some [[Some 0]]\<rparr>
   = Inr (''No results found for query: '' @ quoted ''foo'')
   \<and> semantic_search_results (example_search_env ValueError example_rows) ''foo''
     \<lparr>documents = Some [[''d1'']], metadatas = Some [[]], distances = Some [[Some 0]]\<rparr>
   \<noteq> Inr (''Inconsistent result data for query: '' @ quoted ''foo'')
   \<and> semantic_search_results (example_search_env ValueError example_rows) ''foo''
     \<lparr>documents = Some [[''d1'']], metadatas = Some [[Dict [(''name'', PStr ''foo'')]]],
      distances = Some [[None]]\<rparr>
   = Inl TypeError"
  by code_simp

lemma stored_element_metadata:
  assumes "code_collection (snd (store_elements ienv elems empty_store)) i = Some ent"
  shows "\<exists>e\<in>set elems. metadata ent = to_dict e"
proof -
  from assms have "map_of (rev (element_batch ienv elems)) i = Some ent"
    by (auto simp: store_elements_def empty_store_def upsert_add split: if_splits)
  then have "(i, ent) \<in> set (element_batch ienv elems)"
    using map_of_SomeD by fastforce
  then show ?thesis by (auto simp: element_batch_def)
qed

lemma to_dict_no_file_type: "\<not> where_matches (''file_type'', t) (to_dict e)"
  by (simp add: where_matches_def to_dict_def)

text \<open>
  Claim C10, as amended. When \<open>element_types\<close> has an entry that is not blank, only the
  first such entry, stripped, is used: it reaches the store as the equality filter on
  the metadata key \<open>file_type\<close>. No entry that \<open>_store_elements\<close> writes has that key, so
  the filter matches none of them. When \<open>element_types\<close> is empty or all its entries are
  blank, no filter is passed.
\<close>

theorem search_code_tool_file_type_filter:
  "(types_list element_types = Some (t # ts) \<longrightarrow>
      t = strip (hd (filter (\<lambda>x. strip x \<noteq> []) (split CHR '','' element_types)))
      \<and> t \<noteq> []
      \<and> file_filter element_types = Some t
      \<and> where_filter (file_filter element_types) = Some (''file_type'', t)
      \<and> (VectorSearchTool_init env cl = Inr tool \<longrightarrow> vs_code_collection tool = Some col \<longrightarrow>
           search_code_tool env cl q k element_types =
             (case s_query env col (s_encode env q) k (Some (''file_type'', t)) of
                Inl e \<Rightarrow> Inl e
              | Inr res \<Rightarrow> semantic_search_results env q res))
      \<and> (\<forall>i ent. code_collection (snd (store_elements ienv elems empty_store)) i = Some ent \<longrightarrow>
             \<not> where_matches (''file_type'', t) (metadata ent)))
   \<and> (types_list element_types = None \<or> types_list element_types = Some [] \<longrightarrow>
      where_filter (file_filter element_types) = None)"
proof (intro conjI impI allI)
  assume a: "types_list element_types = Some (t # ts)"
  then have ne: "element_types \<noteq> []" and
    m: "map strip (filter (\<lambda>x. strip x \<noteq> []) (split CHR '','' element_types)) = t # ts"
    by (auto simp: types_list_def split: if_splits)
  then obtain x xs where f: "filter (\<lambda>x. strip x \<noteq> []) (split CHR '','' element_types) = x # xs"
    and t: "t = strip x" by auto
  show "t = strip (hd (filter (\<lambda>x. strip x \<noteq> []) (split CHR '','' element_types)))"
    using f t by simp
  have "x \<in> set (filter (\<lambda>x. strip x \<noteq> []) (split CHR '','' element_types))" using f by simp
  then show tne: "t \<noteq> []" using t by simp
  show ff: "file_filter element_types = Some t" using a by (simp add: file_filter_def)
  show wf: "where_filter (file_filter element_types) = Some (''file_type'', t)"
    using ff tne by (simp add: where_filter_def)
  {
    assume "VectorSearchTool_init env cl = Inr tool" and "vs_code_collection tool = Some col"
    then show "search_code_tool env cl q k element_types =
             (case s_query env col (s_encode env q) k (Some (''file_type'', t)) of
                Inl e \<Rightarrow> Inl e
              | Inr res \<Rightarrow> semantic_search_results env q res)"
      using wf by (simp add: search_code_tool_def semantic_search_def)
  }
  {
    fix i ent assume "code_collection (snd (store_elements ienv elems empty_store)) i = Some ent"
    then show "\<not> where_matches (''file_type'', t) (metadata ent)"
      using stored_element_metadata to_dict_no_file_type by metis
  }
next
  assume "types_list element_types = None \<or> types_list element_types = Some []"
  then show "where_filter (file_filter element_types) = None"
    by (auto simp: file_filter_def where_filter_def)
qed

text \<open>
  The argument \<open>function, class\<close> on a client with both collections: the filter is
  \<open>file_type = function\<close>, and \<open>class\<close> plays no part.
\<close>

theorem search_code_tool_file_type_filter_witness:
  "types_list ''function, class'' = Some [''function'', ''class'']
   \<and> where_filter (file_filter ''function, class'') = Some (''file_type'', ''function'')
   \<and> search_code_tool (example_search_env ValueError example_rows)
        [''code_elements'' \<mapsto> Map.empty, ''file_summaries'' \<mapsto> Map.empty] ''foo'' 5 ''function, class''
      = semantic_search_results (example_search_env ValueError example_rows) ''foo'' example_rows"
proof -
  let ?E = "example_search_env ValueError example_rows"
  let ?cl = "[''code_elements'' \<mapsto> Map.empty, ''file_summaries'' \<mapsto> Map.empty] :: string client"
  have t: "types_list ''function, class'' = Some [''function'', ''class'']" by code_simp
  have i: "VectorSearchTool_init ?E ?cl =
           Inr \<lparr>vs_code_collection = Some Map.empty, vs_file_collection = Some Map.empty\<rparr>"
    by (simp add: VectorSearchTool_init_def get_collection_def)
  have q: "s_query ?E Map.empty (s_encode ?E ''foo'') 5 (Some (''file_type'', ''function'')) = Inr example_rows"
    by (simp add: example_search_env_def)
  note th = search_code_tool_file_type_filter[where element_types = "''function, class''"
        and t = "''function''" and ts = "[''class'']" and cl = ?cl
        and tool = "\<lparr>vs_code_collection = Some Map.empty, vs_file_collection = Some Map.empty\<rparr>"
        and col = Map.empty and env = ?E and q = "''foo''" and k = 5
        and ienv = example_env and elems = "[]"]
  note c = th[THEN conjunct1, THEN mp, OF t]
  note wf = c[THEN conjunct2, THEN conjunct2, THEN conjunct2, THEN conjunct1]
  note s0 = c[THEN conjunct2, THEN conjunct2, THEN conjunct2, THEN conjunct2, THEN conjunct1,
              THEN mp, OF i, THEN mp]
  have sc: "search_code_tool ?E ?cl ''foo'' 5 ''function, class'' =
                 semantic_search_results ?E ''foo'' example_rows"
    using s0 by (simp add: q)
  show ?thesis using t wf sc by simp
qed

text \<open>
  Claim C10 as written fails: the non-empty argument of a comma between two spaces passes
  no filter at all, and for \<open>,function\<close> the entry used is not the first one of the
  comma-separated string, which is empty.
\<close>

theorem search_code_tool_first_entry_counterexample:
  "file_filter '' , '' = None
   \<and> where_filter (file_filter '' , '') = None
   \<and> hd (split CHR '','' '',function'') = []
   \<and> file_filter '',function'' = Some ''function''"
  by code_simp

end
